theory Spec2Isabelle
  imports Main "HOL-Library.Word" "HOL-Library.Multiset"
begin

section \<open>The Move runtime\<close>

text \<open>
  The settlement core is written in Sui Move. Its integers are unsigned and of fixed
  width; \<open>+\<close>, \<open>-\<close>, \<open>*\<close> abort the transaction when the result leaves the
  type, \<open>/\<close> aborts on a zero divisor and a cast \<open>(x as u64)\<close> aborts when the value
  does not fit. The virtual machine reports all of these with the one status
  \<open>ARITHMETIC_ERROR\<close>. A failed \<open>assert!(c, n)\<close> aborts with the code \<open>n\<close>; the codes
  are bare numbers in the sources, so each constructor below carries the name of the
  failure and the comments at the assertions say which number it stands for. An abort
  discards every effect of the transaction, so a function returns either an error or its
  whole result.
\<close>

type_synonym u8 = "8 word"
type_synonym u64 = "64 word"
type_synonym u128 = "128 word"
type_synonym address = nat
type_synonym ID = nat

datatype error =
    ArithmeticError
  | PolicyInactive
  | OracleLocationMismatch
  | OraclePerilMismatch
  | InsufficientLiquidity
  | InsufficientCollateral
  | BelowMarginRequirement
  | Unauthorized
  | AlreadyTerminated
  | EmptyReadingSet
  | LengthMismatch
  | UnregisteredFeed
  | FeedTypeMismatch
  | FeedLocationMismatch
  | InvalidCoverageAmount
  | MissingKey
  | DuplicateKey
  | NotEnoughBalance

definition MAX_U64 :: nat where
  "MAX_U64 = 2 ^ 64 - 1"

definition and_then :: "error + 'a \<Rightarrow> ('a \<Rightarrow> error + 'b) \<Rightarrow> error + 'b" where
  "and_then r f = (case r of Inl e \<Rightarrow> Inl e | Inr x \<Rightarrow> f x)"

definition add_u64 :: "u64 \<Rightarrow> u64 \<Rightarrow> error + u64" where
  "add_u64 a b = (if unat a + unat b \<le> MAX_U64 then Inr (a + b) else Inl ArithmeticError)"

definition sub_u64 :: "u64 \<Rightarrow> u64 \<Rightarrow> error + u64" where
  "sub_u64 a b = (if unat b \<le> unat a then Inr (a - b) else Inl ArithmeticError)"

definition mul_u64 :: "u64 \<Rightarrow> u64 \<Rightarrow> error + u64" where
  "mul_u64 a b = (if unat a * unat b \<le> MAX_U64 then Inr (a * b) else Inl ArithmeticError)"

definition div_u64 :: "u64 \<Rightarrow> u64 \<Rightarrow> error + u64" where
  "div_u64 a b = (if b = 0 then Inl ArithmeticError else Inr (a div b))"

definition as_u64 :: "u128 \<Rightarrow> error + u64" where
  "as_u64 x = (if unat x \<le> MAX_U64 then Inr (ucast x) else Inl ArithmeticError)"

definition assert_that :: "bool \<Rightarrow> error \<Rightarrow> error + unit" where
  "assert_that c e = (if c then Inr () else Inl e)"

text \<open>
  \<open>TxContext\<close>: the sender and the epoch of the transaction, and the number of objects it
  has created so far, from which \<open>object::new\<close> derives the next fresh identifier.
\<close>

record tx_context =
  sender :: address
  epoch :: u64
  ids_created :: nat

definition object_new :: "tx_context \<Rightarrow> ID \<times> tx_context" where
  "object_new ctx = (ids_created ctx, ctx\<lparr>ids_created := Suc (ids_created ctx)\<rparr>)"

section \<open>Module \<open>liquidity_pool\<close>\<close>

record LiquidityPool =
  total_liquidity :: u64
  lp_shares :: "address \<rightharpoonup> u64"
  total_shares :: u64

record LPToken =
  lpt_id :: ID
  lpt_owner :: address
  lpt_shares :: u64

record LiquidityAdded =
  la_provider :: address
  la_amount :: u64
  la_shares :: u64

record LiquidityRemoved =
  lr_provider :: address
  lr_amount :: u64
  lr_shares :: u64

definition create_pool :: "tx_context \<Rightarrow> LiquidityPool" where
  "create_pool ctx = \<lparr>total_liquidity = 0, lp_shares = Map.empty, total_shares = 0\<rparr>"

text \<open>
  \<open>add_liquidity(pool, coin, ctx)\<close>. The coin is given by its value. The shares are
  computed first, then the coin is joined to the pool's balance (\<open>balance::join\<close> adds
  with the overflow check of \<open>u64\<close>), then the sender's entry of the table and the total
  are raised. The result holds the pool after the call, the \<open>LPToken\<close> transferred to the
  sender and the event.
\<close>

definition add_liquidity ::
  "LiquidityPool \<Rightarrow> u64 \<Rightarrow> tx_context \<Rightarrow> error + (LiquidityPool \<times> LPToken \<times> LiquidityAdded)" where
  "add_liquidity pool coin ctx =
     (let amount = coin; sndr = sender ctx in
      and_then
        (if total_shares pool = 0 then Inr amount
         else and_then (mul_u64 amount (total_shares pool))
                (\<lambda>product. div_u64 product (total_liquidity pool)))
        (\<lambda>shares.
      and_then (add_u64 (total_liquidity pool) amount)
        (\<lambda>joined.
      and_then
        (case lp_shares pool sndr of
           Some current_shares \<Rightarrow> add_u64 current_shares shares
         | None \<Rightarrow> Inr shares)
        (\<lambda>sender_shares.
      and_then (add_u64 (total_shares pool) shares)
        (\<lambda>new_total.
      Inr (pool\<lparr>total_liquidity := joined,
                lp_shares := (lp_shares pool)(sndr \<mapsto> sender_shares),
                total_shares := new_total\<rparr>,
           \<lparr>lpt_id = fst (object_new ctx), lpt_owner = sndr, lpt_shares = shares\<rparr>,
           \<lparr>la_provider = sndr, la_amount = amount, la_shares = shares\<rparr>))))))"

text \<open>
  \<open>remove_liquidity(pool, lp_token, ctx)\<close>. \<open>table::borrow_mut\<close> aborts on a missing key
  and \<open>coin::take\<close> aborts when the pool's balance is below the amount.
\<close>

definition remove_liquidity ::
  "LiquidityPool \<Rightarrow> LPToken \<Rightarrow> tx_context \<Rightarrow> error + (LiquidityPool \<times> u64 \<times> LiquidityRemoved)" where
  "remove_liquidity pool lp_token ctx =
     (let owner = lpt_owner lp_token; shares = lpt_shares lp_token in
      and_then (assert_that (owner = sender ctx) Unauthorized) \<comment> \<open>code 0\<close>
        (\<lambda>_.
      and_then (and_then (mul_u64 shares (total_liquidity pool))
                  (\<lambda>product. div_u64 product (total_shares pool)))
        (\<lambda>amount.
      and_then
        (case lp_shares pool owner of
           None \<Rightarrow> Inl MissingKey
         | Some current_shares \<Rightarrow> sub_u64 current_shares shares)
        (\<lambda>owner_shares.
      and_then (sub_u64 (total_shares pool) shares)
        (\<lambda>new_total.
      and_then (if unat amount \<le> unat (total_liquidity pool)
                then Inr (total_liquidity pool - amount) else Inl NotEnoughBalance)
        (\<lambda>rest.
      Inr (pool\<lparr>total_liquidity := rest,
                lp_shares := (lp_shares pool)(owner \<mapsto> owner_shares),
                total_shares := new_total\<rparr>,
           amount,
           \<lparr>lr_provider = owner, lr_amount = amount, lr_shares = shares\<rparr>)))))))"

text \<open>Modelled from the spec: \<open>liquidity_pool::process_claim_payout\<close> is called by
  the claim processors, but the module \<open>liquidity_pool\<close> only lists it among the
  functions still to be written. The specification (4.3) gives its contract:
  \<open>payout(recipient, amount)\<close> decreases \<open>total_liquidity\<close> by \<open>amount\<close> without
  affecting any share balance, and fails with \<open>InsufficientLiquidity\<close> if \<open>amount\<close>
  exceeds \<open>total_liquidity\<close>.
\<close>

definition process_claim_payout ::
  "LiquidityPool \<Rightarrow> address \<Rightarrow> u64 \<Rightarrow> error + LiquidityPool" where
  "process_claim_payout pool recipient amount =
     (if unat (total_liquidity pool) < unat amount then Inl InsufficientLiquidity
      else Inr (pool\<lparr>total_liquidity := total_liquidity pool - amount\<rparr>))"

section \<open>Module \<open>policy_manager\<close>\<close>

record Policy =
  pm_id :: ID
  pm_owner :: address
  pm_location :: string
  pm_peril_type :: string
  pm_coverage_amount :: u64
  pm_trigger_threshold :: u64
  pm_collateral_amount :: u64
  pm_active :: bool
  pm_created_at :: u64

definition create_policy ::
  "string \<Rightarrow> string \<Rightarrow> u64 \<Rightarrow> u64 \<Rightarrow> u64 \<Rightarrow> tx_context \<Rightarrow> Policy" where
  "create_policy location peril_type coverage_amount trigger_threshold collateral ctx =
     \<lparr>pm_id = fst (object_new ctx),
      pm_owner = sender ctx,
      pm_location = location,
      pm_peril_type = peril_type,
      pm_coverage_amount = coverage_amount,
      pm_trigger_threshold = trigger_threshold,
      pm_collateral_amount = collateral,
      pm_active = True,
      pm_created_at = epoch ctx\<rparr>"

definition terminate_policy :: "Policy \<Rightarrow> tx_context \<Rightarrow> error + Policy" where
  "terminate_policy policy ctx =
     and_then (assert_that (pm_owner policy = sender ctx) Unauthorized) \<comment> \<open>code 0\<close>
       (\<lambda>_.
     and_then (assert_that (pm_active policy) AlreadyTerminated) \<comment> \<open>code 1\<close>
       (\<lambda>_.
     Inr (policy\<lparr>pm_active := False\<rparr>)))"

section \<open>Module \<open>oracle_aggregator\<close>\<close>

record AggregatedData =
  oa_id :: ID
  oa_location :: string
  oa_data_type :: string
  oa_value :: u64
  oa_timestamp :: u64
  oa_sources_count :: u64

text \<open>The summing loop of \<open>aggregate_data\<close>: \<open>while (i < values_len) { sum = sum + values[i]; i = i + 1 }\<close>.\<close>

function sum_values :: "u64 list \<Rightarrow> nat \<Rightarrow> u64 \<Rightarrow> error + u64" where
  "sum_values values i sum0 =
     (if i < length values
      then and_then (add_u64 sum0 (values ! i)) (\<lambda>sum1. sum_values values (Suc i) sum1)
      else Inr sum0)"
  by pat_completeness auto
termination
  by (relation "measure (\<lambda>(values, i, sum0). length values - i)") auto

text \<open>
  \<open>oracle_aggregator::aggregate_data\<close>: "Simple aggregation: take the average". The
  length of a vector is a \<open>u64\<close>.
\<close>

definition oracle_aggregator_aggregate_data ::
  "string \<Rightarrow> string \<Rightarrow> u64 list \<Rightarrow> address list \<Rightarrow> tx_context \<Rightarrow> error + AggregatedData" where
  "oracle_aggregator_aggregate_data location data_type values sources ctx =
     (let values_len = length values in
      and_then (assert_that (values_len > 0) EmptyReadingSet) \<comment> \<open>code 0\<close>
        (\<lambda>_.
      and_then (assert_that (values_len = length sources) LengthMismatch) \<comment> \<open>code 1\<close>
        (\<lambda>_.
      and_then (sum_values values 0 0)
        (\<lambda>sum0.
      and_then (div_u64 sum0 (of_nat values_len))
        (\<lambda>avg_value.
      Inr \<lparr>oa_id = fst (object_new ctx),
           oa_location = location,
           oa_data_type = data_type,
           oa_value = avg_value,
           oa_timestamp = epoch ctx,
           oa_sources_count = of_nat values_len\<rparr>)))))"

section \<open>Module \<open>claim_processor\<close>\<close>

record Claim =
  cl_id :: ID
  cl_policy_id :: ID
  cl_owner :: address
  cl_trigger_value :: u64
  cl_actual_value :: u64
  cl_payout_amount :: u64
  cl_processed_at :: u64
  cl_status :: u8 \<comment> \<open>0: Pending, 1: Approved, 2: Rejected\<close>

record ClaimProcessed =
  cp_claim_id :: ID
  cp_policy_id :: ID
  cp_owner :: address
  cp_payout_amount :: u64
  cp_status :: u8

text \<open>
  \<open>claim_processor::process_claim\<close>. It compares the locations (code 0) and the peril
  types (code 1), sets \<open>trigger_met\<close> when the value is at most the threshold, builds the
  claim, pays out when the status is 1, and transfers the claim to the owner. The result
  holds the pool after the call, the claim record and the event.
\<close>

definition process_claim ::
  "Policy \<Rightarrow> AggregatedData \<Rightarrow> LiquidityPool \<Rightarrow> tx_context \<Rightarrow>
     error + (LiquidityPool \<times> Claim \<times> ClaimProcessed)" where
  "process_claim policy oracle_data pool ctx =
     and_then (assert_that (pm_location policy = oa_location oracle_data)
                 OracleLocationMismatch) \<comment> \<open>code 0\<close>
       (\<lambda>_.
     and_then (assert_that (pm_peril_type policy = oa_data_type oracle_data)
                 OraclePerilMismatch) \<comment> \<open>code 1\<close>
       (\<lambda>_.
     let trigger_met = (oa_value oracle_data \<le> pm_trigger_threshold policy);
         status = (if trigger_met then 1 else 2);
         payout_amount = (if trigger_met then pm_coverage_amount policy else 0);
         claim = \<lparr>cl_id = fst (object_new ctx),
                  cl_policy_id = pm_id policy,
                  cl_owner = pm_owner policy,
                  cl_trigger_value = pm_trigger_threshold policy,
                  cl_actual_value = oa_value oracle_data,
                  cl_payout_amount = payout_amount,
                  cl_processed_at = epoch ctx,
                  cl_status = status\<rparr>
     in
     and_then (if status = 1 then process_claim_payout pool (pm_owner policy) payout_amount
               else Inr pool)
       (\<lambda>pool'.
     Inr (pool', claim,
          \<lparr>cp_claim_id = cl_id claim,
           cp_policy_id = pm_id policy,
           cp_owner = pm_owner policy,
           cp_payout_amount = payout_amount,
           cp_status = status\<rparr>))))"

section \<open>Module \<open>switchboard_oracle\<close>\<close>

record OracleFeedRegistry =
  feeds :: "string \<rightharpoonup> ID"
  feed_authorities :: "ID \<rightharpoonup> address"
  feed_types :: "ID \<rightharpoonup> string"
  feed_locations :: "ID \<rightharpoonup> string"

record SwitchboardAggregatedData =
  sb_id :: ID
  sb_location :: string
  sb_data_type :: string
  sb_value :: u64
  sb_timestamp :: u64
  sb_confidence :: u64
  sb_num_sources :: u64
  sb_sources :: "ID list"

text \<open>
  The loop of \<open>aggregate_data\<close> that checks every feed: it must be registered (code 3),
  of the batch's data type (code 4) and of its location (code 5). \<open>table::borrow\<close> aborts
  on a key the table does not hold.
\<close>

function verify_feeds ::
  "OracleFeedRegistry \<Rightarrow> ID list \<Rightarrow> string \<Rightarrow> string \<Rightarrow> nat \<Rightarrow> error + unit" where
  "verify_feeds registry feed_ids data_type_str location_str i =
     (if i < length feed_ids then
        (let feed_id = feed_ids ! i in
         and_then (assert_that (feed_id \<in> dom (feed_authorities registry)) UnregisteredFeed)
           (\<lambda>_.
         and_then (case feed_types registry feed_id of
                     None \<Rightarrow> Inl MissingKey
                   | Some t \<Rightarrow> assert_that (t = data_type_str) FeedTypeMismatch)
           (\<lambda>_.
         and_then (case feed_locations registry feed_id of
                     None \<Rightarrow> Inl MissingKey
                   | Some l \<Rightarrow> assert_that (l = location_str) FeedLocationMismatch)
           (\<lambda>_.
         verify_feeds registry feed_ids data_type_str location_str (Suc i)))))
      else Inr ())"
  by pat_completeness auto
termination
  by (relation "measure (\<lambda>(registry, feed_ids, d, l, i). length feed_ids - i)") auto

text \<open>
  The bubble sort of \<open>aggregate_data\<close>, loop by loop. The inner loop runs \<open>j\<close> from 0
  while \<open>j < n - i - 1\<close> and swaps \<open>values[j]\<close> and \<open>values[j + 1]\<close> when the first is
  greater; the outer loop runs \<open>i\<close> from 0 while \<open>i < n\<close>. Within the outer loop
  \<open>i < n\<close>, so \<open>n - i - 1\<close> does not underflow, and \<open>j + 1 < n\<close>, so every
  \<open>vector::borrow\<close> is in range.
\<close>

function bubble_inner :: "u64 list \<Rightarrow> nat \<Rightarrow> nat \<Rightarrow> nat \<Rightarrow> u64 list" where
  "bubble_inner values n i j =
     (if j < n - i - 1 then
        bubble_inner
          (if values ! j > values ! (j + 1)
           then (let temp = values ! j in values[j := values ! (j + 1), j + 1 := temp])
           else values)
          n i (j + 1)
      else values)"
  by pat_completeness auto
termination
  by (relation "measure (\<lambda>(values, n, i, j). n - i - 1 - j)") auto

function bubble_outer :: "u64 list \<Rightarrow> nat \<Rightarrow> nat \<Rightarrow> u64 list" where
  "bubble_outer values n i =
     (if i < n then bubble_outer (bubble_inner values n i 0) n (i + 1) else values)"
  by pat_completeness auto
termination
  by (relation "measure (\<lambda>(values, n, i). n - i)") auto

text \<open>
  The median of the sorted vector. With \<open>n > 0\<close> the indices \<open>n / 2 - 1\<close> (taken only
  for even \<open>n\<close>) and \<open>n / 2\<close> are in range; the sum of the two middle values is a \<open>u64\<close>
  addition.
\<close>

definition median_value :: "u64 list \<Rightarrow> error + u64" where
  "median_value values =
     (let n = length values in
      if n mod 2 = 0
      then and_then (add_u64 (values ! (n div 2 - 1)) (values ! (n div 2)))
             (\<lambda>s. div_u64 s 2)
      else Inr (values ! (n div 2)))"

text \<open>The loop of \<open>calculate_confidence\<close> that adds up the absolute deviations from the median.\<close>

function total_deviation :: "u64 list \<Rightarrow> u64 \<Rightarrow> nat \<Rightarrow> u64 \<Rightarrow> error + u64" where
  "total_deviation values median i acc =
     (if i < length values then
        (let v = values ! i;
             deviation = (if v > median then v - median else median - v)
         in and_then (add_u64 acc deviation)
              (\<lambda>acc1. total_deviation values median (Suc i) acc1))
      else Inr acc)"
  by pat_completeness auto
termination
  by (relation "measure (\<lambda>(values, median, i, acc). length values - i)") auto

definition calculate_confidence :: "u64 list \<Rightarrow> u64 \<Rightarrow> error + u64" where
  "calculate_confidence values median =
     (let n = length values in
      if n \<le> 1 then Inr 10000
      else
        and_then (total_deviation values median 0 0)
          (\<lambda>acc.
        and_then (div_u64 acc (of_nat n))
          (\<lambda>avg_deviation.
        if avg_deviation = 0 then Inr 10000
        else if median = 0 then Inr 5000
        else
          and_then (and_then (mul_u64 avg_deviation 10000) (\<lambda>p. div_u64 p median))
            (\<lambda>deviation_percentage.
          if deviation_percentage \<ge> 10000 then Inr 1000
          else sub_u64 10000 deviation_percentage))))"

definition switchboard_oracle_aggregate_data ::
  "OracleFeedRegistry \<Rightarrow> string \<Rightarrow> string \<Rightarrow> ID list \<Rightarrow> u64 list \<Rightarrow> u64 list \<Rightarrow> tx_context \<Rightarrow>
     error + SwitchboardAggregatedData" where
  "switchboard_oracle_aggregate_data registry location data_type feed_ids feed_values
       feed_timestamps ctx =
     (let num_feeds = length feed_ids in
      and_then (assert_that (num_feeds > 0) EmptyReadingSet) \<comment> \<open>code 0\<close>
        (\<lambda>_.
      and_then (assert_that (num_feeds = length feed_values) LengthMismatch) \<comment> \<open>code 1\<close>
        (\<lambda>_.
      and_then (assert_that (num_feeds = length feed_timestamps) LengthMismatch) \<comment> \<open>code 2\<close>
        (\<lambda>_.
      and_then (verify_feeds registry feed_ids data_type location 0)
        (\<lambda>_.
      let values = bubble_outer feed_values (length feed_values) 0 in
      and_then (median_value values)
        (\<lambda>median.
      and_then (calculate_confidence values median)
        (\<lambda>confidence.
      Inr \<lparr>sb_id = fst (object_new ctx),
           sb_location = location,
           sb_data_type = data_type,
           sb_value = median,
           sb_timestamp = epoch ctx,
           sb_confidence = confidence,
           sb_num_sources = of_nat num_feeds,
           sb_sources = feed_ids\<rparr>)))))))"

section \<open>Module \<open>risk_model\<close>\<close>

record RiskModel =
  rm_id :: ID
  model_name :: string
  model_version :: string
  base_premium_rate :: u64
  location_factors :: "string \<rightharpoonup> u64"
  peril_factors :: "string \<rightharpoonup> u64"
  seasonal_factors :: "u64 \<rightharpoonup> u64"
  coverage_factors :: "u64 \<rightharpoonup> u64"
  rm_last_updated :: u64
  created_by :: address

record PremiumCalculation =
  pc_policy_id :: "ID option"
  pc_location :: string
  pc_peril_type :: string
  pc_coverage_amount :: u64
  base_premium :: u64
  location_adjustment :: u64
  peril_adjustment :: u64
  seasonal_adjustment :: u64
  coverage_adjustment :: u64
  final_premium :: u64
  funding_rate :: u64

text \<open>\<open>create_risk_model\<close> fills the four tables with the default factors.\<close>

definition create_risk_model :: "string \<Rightarrow> string \<Rightarrow> u64 \<Rightarrow> tx_context \<Rightarrow> RiskModel" where
  "create_risk_model name version rate ctx =
     \<lparr>rm_id = fst (object_new ctx),
      model_name = name,
      model_version = version,
      base_premium_rate = rate,
      location_factors =
        [''east-africa'' \<mapsto> 120, ''southeast-asia'' \<mapsto> 150,
         ''central-america'' \<mapsto> 130, ''south-pacific'' \<mapsto> 140],
      peril_factors =
        [''drought'' \<mapsto> 130, ''flood'' \<mapsto> 160, ''heat'' \<mapsto> 120, ''wind'' \<mapsto> 140],
      seasonal_factors =
        [1 \<mapsto> 100, 2 \<mapsto> 100, 3 \<mapsto> 110, 4 \<mapsto> 120, 5 \<mapsto> 130, 6 \<mapsto> 140,
         7 \<mapsto> 150, 8 \<mapsto> 160, 9 \<mapsto> 150, 10 \<mapsto> 130, 11 \<mapsto> 110, 12 \<mapsto> 100],
      coverage_factors =
        [1000 \<mapsto> 120, 5000 \<mapsto> 110, 10000 \<mapsto> 100, 50000 \<mapsto> 90, 100000 \<mapsto> 85],
      rm_last_updated = epoch ctx,
      created_by = sender ctx\<rparr>"

definition update_location_factor ::
  "RiskModel \<Rightarrow> string \<Rightarrow> u64 \<Rightarrow> tx_context \<Rightarrow> error + RiskModel" where
  "update_location_factor model location factor ctx =
     and_then (assert_that (created_by model = sender ctx) Unauthorized) \<comment> \<open>code 0\<close>
       (\<lambda>_.
     Inr (model\<lparr>location_factors := (location_factors model)(location \<mapsto> factor),
               rm_last_updated := epoch ctx\<rparr>))"

text \<open>
  The search for the closest coverage tier in \<open>calculate_premium\<close>: \<open>i\<close> runs over the
  vector of tiers, \<open>min_diff\<close> starts at 1000000000 and \<open>closest_tier\<close> at 10000.
\<close>

definition coverage_tiers :: "u64 list" where
  "coverage_tiers = [1000, 5000, 10000, 50000, 100000]"

function closest_tier_loop :: "u64 list \<Rightarrow> u64 \<Rightarrow> nat \<Rightarrow> u64 \<Rightarrow> u64 \<Rightarrow> u64" where
  "closest_tier_loop tiers coverage_amount i min_diff closest_tier =
     (if i < length tiers then
        (let tier = tiers ! i;
             diff = (if tier > coverage_amount then tier - coverage_amount
                     else coverage_amount - tier)
         in if diff < min_diff
            then closest_tier_loop tiers coverage_amount (Suc i) diff tier
            else closest_tier_loop tiers coverage_amount (Suc i) min_diff closest_tier)
      else closest_tier)"
  by pat_completeness auto
termination
  by (relation "measure (\<lambda>(tiers, c, i, m, t). length tiers - i)") auto

text \<open>One adjustment of \<open>calculate_premium\<close>: \<open>(base_premium * factor) / 100 - base_premium\<close>.\<close>

definition adjustment :: "u64 \<Rightarrow> u64 \<Rightarrow> error + u64" where
  "adjustment base factor =
     and_then (mul_u64 base factor)
       (\<lambda>product. and_then (div_u64 product 100) (\<lambda>scaled. sub_u64 scaled base))"

definition calculate_premium ::
  "RiskModel \<Rightarrow> string \<Rightarrow> string \<Rightarrow> u64 \<Rightarrow> u64 \<Rightarrow> ID option \<Rightarrow> error + PremiumCalculation" where
  "calculate_premium model location peril_type coverage_amount current_month policy_id =
     (let rate = base_premium_rate model;
          location_factor =
            (case location_factors model location of Some f \<Rightarrow> f | None \<Rightarrow> 100);
          peril_factor =
            (case peril_factors model peril_type of Some f \<Rightarrow> f | None \<Rightarrow> 100);
          month = (if current_month \<ge> 1 \<and> current_month \<le> 12 then current_month else 1);
          seasonal_factor =
            (case seasonal_factors model month of Some f \<Rightarrow> f | None \<Rightarrow> 100);
          closest_tier = closest_tier_loop coverage_tiers coverage_amount 0 1000000000 10000;
          coverage_factor =
            (case coverage_factors model closest_tier of Some f \<Rightarrow> f | None \<Rightarrow> 100)
      in
      and_then (and_then (mul_u64 coverage_amount rate) (\<lambda>p. div_u64 p 10000))
        (\<lambda>base.
      and_then (adjustment base location_factor)
        (\<lambda>location_adj.
      and_then (adjustment base peril_factor)
        (\<lambda>peril_adj.
      and_then (adjustment base seasonal_factor)
        (\<lambda>seasonal_adj.
      and_then (adjustment base coverage_factor)
        (\<lambda>coverage_adj.
      and_then (and_then (add_u64 base location_adj)
                 (\<lambda>s1. and_then (add_u64 s1 peril_adj)
                 (\<lambda>s2. and_then (add_u64 s2 seasonal_adj)
                 (\<lambda>s3. add_u64 s3 coverage_adj))))
        (\<lambda>final.
      and_then (and_then (mul_u64 final 10000)
                 (\<lambda>numerator. and_then (mul_u64 coverage_amount 365)
                 (\<lambda>denominator. div_u64 numerator denominator)))
        (\<lambda>daily_rate.
      Inr \<lparr>pc_policy_id = policy_id,
           pc_location = location,
           pc_peril_type = peril_type,
           pc_coverage_amount = coverage_amount,
           base_premium = base,
           location_adjustment = location_adj,
           peril_adjustment = peril_adj,
           seasonal_adjustment = seasonal_adj,
           coverage_adjustment = coverage_adj,
           final_premium = final,
           funding_rate = daily_rate\<rparr>))))))))"

section \<open>Module \<open>policy_manager_enhanced\<close>\<close>

record EnhancedPolicy =
  pe_id :: ID
  pe_owner :: address
  pe_location :: string
  pe_location_coordinates :: "u64 list"
  pe_peril_type :: string
  pe_peril_details :: string
  pe_coverage_amount :: u64
  pe_trigger_threshold :: u64
  pe_trigger_operator :: u8 \<comment> \<open>0: less than, 1: greater than, 2: equal to\<close>
  collateral_balance :: u64
  margin_requirement :: u64
  funding_rate_paid :: u64
  funding_rate_received :: u64
  pe_active :: bool
  pe_created_at :: u64
  pe_last_updated :: u64

record PolicyRegistry =
  policies :: "ID \<rightharpoonup> address"
  policies_by_owner :: "address \<rightharpoonup> ID list"
  policies_by_location :: "string \<rightharpoonup> ID list"
  policies_by_peril :: "string \<rightharpoonup> ID list"
  total_policies :: u64
  total_coverage :: u64

record RiskParameters =
  location_risk :: "string \<rightharpoonup> u64"
  peril_risk :: "string \<rightharpoonup> u64"
  base_margin_requirement :: u64

text \<open>The module initialiser creates the empty registry and the default risk parameters.\<close>

definition init_registry :: PolicyRegistry where
  "init_registry =
     \<lparr>policies = Map.empty, policies_by_owner = Map.empty,
      policies_by_location = Map.empty, policies_by_peril = Map.empty,
      total_policies = 0, total_coverage = 0\<rparr>"

definition init_risk_params :: RiskParameters where
  "init_risk_params =
     \<lparr>location_risk =
        [''east-africa'' \<mapsto> 1200, ''southeast-asia'' \<mapsto> 1500,
         ''central-america'' \<mapsto> 1300, ''south-pacific'' \<mapsto> 1400],
      peril_risk =
        [''drought'' \<mapsto> 1300, ''flood'' \<mapsto> 1600, ''heat'' \<mapsto> 1200, ''wind'' \<mapsto> 1400],
      base_margin_requirement = 1000\<rparr>"

definition calculate_margin_requirement ::
  "RiskParameters \<Rightarrow> string \<Rightarrow> string \<Rightarrow> u64 \<Rightarrow> error + u64" where
  "calculate_margin_requirement risk_params location peril_type coverage_amount =
     (let base_margin = base_margin_requirement risk_params;
          loc_risk = (case location_risk risk_params location of Some r \<Rightarrow> r | None \<Rightarrow> 1000);
          per_risk = (case peril_risk risk_params peril_type of Some r \<Rightarrow> r | None \<Rightarrow> 1000)
      in
      and_then (and_then (add_u64 base_margin loc_risk) (\<lambda>s. add_u64 s per_risk))
        (\<lambda>total_risk_factor.
      and_then (mul_u64 coverage_amount total_risk_factor)
        (\<lambda>product. div_u64 product 10000)))"

text \<open>
  An index of the registry: \<open>vector::push_back\<close> on the entry of the key when the table
  contains it, \<open>table::add\<close> of a singleton otherwise.
\<close>

definition index_add :: "('k \<rightharpoonup> ID list) \<Rightarrow> 'k \<Rightarrow> ID \<Rightarrow> ('k \<rightharpoonup> ID list)" where
  "index_add t k policy_id =
     (case t k of Some ids \<Rightarrow> t(k \<mapsto> ids @ [policy_id]) | None \<Rightarrow> t(k \<mapsto> [policy_id]))"

text \<open>
  \<open>create_policy\<close> of the enhanced module. The collateral coin is given by its value; the
  assertion (code 0) demands that it covers the margin requirement. \<open>table::add\<close> on
  \<open>registry.policies\<close> aborts when the identifier is already a key.
\<close>

definition create_policy_enhanced ::
  "PolicyRegistry \<Rightarrow> RiskParameters \<Rightarrow> string \<Rightarrow> u64 list \<Rightarrow> string \<Rightarrow> string \<Rightarrow>
     u64 \<Rightarrow> u64 \<Rightarrow> u8 \<Rightarrow> u64 \<Rightarrow> tx_context \<Rightarrow> error + (PolicyRegistry \<times> EnhancedPolicy)" where
  "create_policy_enhanced registry risk_params location coordinates peril_type peril_details
       coverage_amount trigger_threshold trigger_operator collateral ctx =
     and_then (calculate_margin_requirement risk_params location peril_type coverage_amount)
       (\<lambda>margin.
     and_then (assert_that (collateral \<ge> margin) InsufficientCollateral) \<comment> \<open>code 0\<close>
       (\<lambda>_.
     let policy = \<lparr>pe_id = fst (object_new ctx),
                   pe_owner = sender ctx,
                   pe_location = location,
                   pe_location_coordinates = coordinates,
                   pe_peril_type = peril_type,
                   pe_peril_details = peril_details,
                   pe_coverage_amount = coverage_amount,
                   pe_trigger_threshold = trigger_threshold,
                   pe_trigger_operator = trigger_operator,
                   collateral_balance = collateral,
                   margin_requirement = margin,
                   funding_rate_paid = 0,
                   funding_rate_received = 0,
                   pe_active = True,
                   pe_created_at = epoch ctx,
                   pe_last_updated = epoch ctx\<rparr>;
         policy_id = pe_id policy;
         owner = sender ctx
     in
     and_then (assert_that (policy_id \<notin> dom (policies registry)) DuplicateKey)
       (\<lambda>_.
     and_then (add_u64 (total_policies registry) 1)
       (\<lambda>count.
     and_then (add_u64 (total_coverage registry) coverage_amount)
       (\<lambda>coverage.
     Inr (registry\<lparr>policies := (policies registry)(policy_id \<mapsto> owner),
                   policies_by_owner := index_add (policies_by_owner registry) owner policy_id,
                   policies_by_location :=
                     index_add (policies_by_location registry) location policy_id,
                   policies_by_peril :=
                     index_add (policies_by_peril registry) peril_type policy_id,
                   total_policies := count,
                   total_coverage := coverage\<rparr>,
          policy))))))"

definition add_collateral :: "EnhancedPolicy \<Rightarrow> u64 \<Rightarrow> tx_context \<Rightarrow> error + EnhancedPolicy" where
  "add_collateral policy additional_collateral ctx =
     and_then (assert_that (pe_owner policy = sender ctx) Unauthorized) \<comment> \<open>code 0\<close>
       (\<lambda>_.
     and_then (add_u64 (collateral_balance policy) additional_collateral)
       (\<lambda>new_balance.
     Inr (policy\<lparr>collateral_balance := new_balance, pe_last_updated := epoch ctx\<rparr>)))"

text \<open>
  \<open>remove_collateral\<close>: the excess is \<open>current_balance - policy.margin_requirement\<close>, a
  \<open>u64\<close> subtraction, and the amount must not exceed it (code 0). The result holds the
  policy after the call and the value of the coin returned to the owner.
\<close>

definition remove_collateral ::
  "EnhancedPolicy \<Rightarrow> u64 \<Rightarrow> tx_context \<Rightarrow> error + (EnhancedPolicy \<times> u64)" where
  "remove_collateral policy amount ctx =
     and_then (assert_that (pe_owner policy = sender ctx) Unauthorized) \<comment> \<open>code 0\<close>
       (\<lambda>_.
     let current_balance = collateral_balance policy in
     and_then (sub_u64 current_balance (margin_requirement policy))
       (\<lambda>excess.
     and_then (assert_that (amount \<le> excess) BelowMarginRequirement) \<comment> \<open>code 0\<close>
       (\<lambda>_.
     and_then (if unat amount \<le> unat (collateral_balance policy)
               then Inr (collateral_balance policy - amount) else Inl NotEnoughBalance)
       (\<lambda>rest.
     Inr (policy\<lparr>collateral_balance := rest, pe_last_updated := epoch ctx\<rparr>, amount)))))"

definition terminate_policy_enhanced ::
  "PolicyRegistry \<Rightarrow> EnhancedPolicy \<Rightarrow> tx_context \<Rightarrow>
     error + (PolicyRegistry \<times> EnhancedPolicy \<times> u64)" where
  "terminate_policy_enhanced registry policy ctx =
     and_then (assert_that (pe_owner policy = sender ctx) Unauthorized) \<comment> \<open>code 0\<close>
       (\<lambda>_.
     and_then (assert_that (pe_active policy) AlreadyTerminated) \<comment> \<open>code 1\<close>
       (\<lambda>_.
     let balance_amount = collateral_balance policy in
     and_then (sub_u64 (total_coverage registry) (pe_coverage_amount policy))
       (\<lambda>coverage.
     Inr (registry\<lparr>total_coverage := coverage\<rparr>,
          policy\<lparr>collateral_balance := 0, pe_active := False, pe_last_updated := epoch ctx\<rparr>,
          balance_amount))))"

text \<open>
  \<open>process_funding_payment\<close> of the enhanced module. When the policyholder pays, the
  collateral must cover the payment (code 1) and the payment is added to
  \<open>funding_rate_paid\<close>; otherwise it is added to \<open>funding_rate_received\<close>. The function
  returns the payment and leaves the collateral balance as it is.
\<close>

definition process_funding_payment ::
  "EnhancedPolicy \<Rightarrow> u64 \<Rightarrow> bool \<Rightarrow> tx_context \<Rightarrow> error + (EnhancedPolicy \<times> u64)" where
  "process_funding_payment policy rate direction ctx =
     and_then (assert_that (pe_active policy) PolicyInactive) \<comment> \<open>code 0\<close>
       (\<lambda>_.
     and_then (and_then (mul_u64 (pe_coverage_amount policy) rate) (\<lambda>p. div_u64 p 10000))
       (\<lambda>payment_amount.
     if direction then
       and_then (assert_that (collateral_balance policy \<ge> payment_amount)
                   InsufficientCollateral) \<comment> \<open>code 1\<close>
         (\<lambda>_.
       and_then (add_u64 (funding_rate_paid policy) payment_amount)
         (\<lambda>paid. Inr (policy\<lparr>funding_rate_paid := paid\<rparr>, payment_amount)))
     else
       and_then (add_u64 (funding_rate_received policy) payment_amount)
         (\<lambda>received. Inr (policy\<lparr>funding_rate_received := received\<rparr>, payment_amount))))"

definition is_undercollateralized :: "EnhancedPolicy \<Rightarrow> bool" where
  "is_undercollateralized policy = (collateral_balance policy < margin_requirement policy)"

definition get_policy_details ::
  "EnhancedPolicy \<Rightarrow> address \<times> string \<times> string \<times> u64 \<times> u64 \<times> u64 \<times> bool" where
  "get_policy_details policy =
     (pe_owner policy, pe_location policy, pe_peril_type policy, pe_coverage_amount policy,
      pe_trigger_threshold policy, collateral_balance policy, pe_active policy)"

text \<open>Modelled from the spec: \<open>policy_manager_enhanced::get_trigger_operator\<close> is
  called by the claim processor but is not among the functions of the module. The
  policy's terms hold its trigger operator (specification, 3), which the field
  \<open>trigger_operator\<close> of the struct stores; the accessor returns it.
\<close>

definition get_trigger_operator :: "EnhancedPolicy \<Rightarrow> u8" where
  "get_trigger_operator policy = pe_trigger_operator policy"

section \<open>Module \<open>switchboard_oracle_integration\<close>\<close>

record IntegrationAggregatedData =
  si_id :: ID
  si_location :: string
  si_data_type :: string
  si_value :: u128
  si_decimal_places :: u8
  si_timestamp :: u64
  si_min_timestamp :: u64
  si_max_timestamp :: u64
  si_mean :: u128
  si_stdev :: u128
  si_min_value :: u128
  si_max_value :: u128
  si_sources_count :: u64

definition get_aggregated_data_details ::
  "IntegrationAggregatedData \<Rightarrow> string \<times> string \<times> u128 \<times> u64 \<times> u64" where
  "get_aggregated_data_details data =
     (si_location data, si_data_type data, si_value data, si_timestamp data,
      si_sources_count data)"

section \<open>Module \<open>claim_processor_updated\<close>\<close>

record UpdatedClaim =
  uc_id :: ID
  uc_policy_id :: ID
  uc_owner :: address
  uc_trigger_value :: u64
  uc_actual_value :: u128
  uc_decimal_places :: u8
  uc_payout_amount :: u64
  uc_processed_at :: u64
  uc_status :: u8 \<comment> \<open>0: Pending, 1: Approved, 2: Rejected\<close>
  uc_oracle_sources :: u64

text \<open>
  \<open>process_claim_with_aggregated_data\<close>. The policy must be active (code 0) and the
  aggregate of the policy's location (code 1) and peril type (code 2). The oracle value is
  cast to \<open>u64\<close>, the trigger is evaluated by the policy's operator, the claim is built,
  the pool pays out when the status is 1, and the claim is transferred to the owner. The
  policy is borrowed immutably: the function cannot change it. The result holds the pool
  after the call, the claim record and the event.
\<close>

definition process_claim_with_aggregated_data ::
  "EnhancedPolicy \<Rightarrow> IntegrationAggregatedData \<Rightarrow> LiquidityPool \<Rightarrow> tx_context \<Rightarrow>
     error + (LiquidityPool \<times> UpdatedClaim \<times> ClaimProcessed)" where
  "process_claim_with_aggregated_data policy oracle_data pool ctx =
     (case get_policy_details policy of
        (owner, location, peril_type, coverage_amount, trigger_threshold, _, active) \<Rightarrow>
     and_then (assert_that active PolicyInactive) \<comment> \<open>code 0\<close>
       (\<lambda>_.
     case get_aggregated_data_details oracle_data of
        (oracle_location, oracle_data_type, oracle_value, _, sources_count) \<Rightarrow>
     and_then (assert_that (location = oracle_location) OracleLocationMismatch) \<comment> \<open>code 1\<close>
       (\<lambda>_.
     and_then (assert_that (peril_type = oracle_data_type) OraclePerilMismatch) \<comment> \<open>code 2\<close>
       (\<lambda>_.
     and_then (as_u64 oracle_value)
       (\<lambda>oracle_value_u64.
     let trigger_operator = get_trigger_operator policy;
         trigger_met =
           (if trigger_operator = 0 then oracle_value_u64 \<le> trigger_threshold
            else if trigger_operator = 1 then oracle_value_u64 \<ge> trigger_threshold
            else if trigger_operator = 2 then
              (let diff = (if oracle_value_u64 > trigger_threshold
                           then oracle_value_u64 - trigger_threshold
                           else trigger_threshold - oracle_value_u64)
               in diff \<le> trigger_threshold div 100)
            else False);
         status = (if trigger_met then 1 else 2);
         payout_amount = (if trigger_met then coverage_amount else 0);
         claim = \<lparr>uc_id = fst (object_new ctx),
                  uc_policy_id = pe_id policy,
                  uc_owner = owner,
                  uc_trigger_value = trigger_threshold,
                  uc_actual_value = oracle_value,
                  uc_decimal_places = 8,
                  uc_payout_amount = payout_amount,
                  uc_processed_at = epoch ctx,
                  uc_status = status,
                  uc_oracle_sources = sources_count\<rparr>
     in
     and_then (if status = 1 then process_claim_payout pool owner payout_amount else Inr pool)
       (\<lambda>pool'.
     Inr (pool', claim,
          \<lparr>cp_claim_id = uc_id claim,
           cp_policy_id = pe_id policy,
           cp_owner = owner,
           cp_payout_amount = payout_amount,
           cp_status = status\<rparr>)))))))"

text \<open>
  \<open>process_claim_with_aggregator\<close> reads the value and its decimal places from a
  Switchboard aggregator, an object of another package; they are parameters here. The
  function does not compare locations or peril types.
\<close>

definition process_claim_with_aggregator ::
  "EnhancedPolicy \<Rightarrow> u128 \<Rightarrow> u8 \<Rightarrow> LiquidityPool \<Rightarrow> tx_context \<Rightarrow>
     error + (LiquidityPool \<times> UpdatedClaim \<times> ClaimProcessed)" where
  "process_claim_with_aggregator policy oracle_value decimal_places pool ctx =
     (case get_policy_details policy of
        (owner, location, peril_type, coverage_amount, trigger_threshold, _, active) \<Rightarrow>
     and_then (assert_that active PolicyInactive) \<comment> \<open>code 0\<close>
       (\<lambda>_.
     and_then (as_u64 oracle_value)
       (\<lambda>oracle_value_u64.
     let trigger_operator = get_trigger_operator policy;
         trigger_met =
           (if trigger_operator = 0 then oracle_value_u64 \<le> trigger_threshold
            else if trigger_operator = 1 then oracle_value_u64 \<ge> trigger_threshold
            else if trigger_operator = 2 then
              (let diff = (if oracle_value_u64 > trigger_threshold
                           then oracle_value_u64 - trigger_threshold
                           else trigger_threshold - oracle_value_u64)
               in diff \<le> trigger_threshold div 100)
            else False);
         status = (if trigger_met then 1 else 2);
         payout_amount = (if trigger_met then coverage_amount else 0);
         claim = \<lparr>uc_id = fst (object_new ctx),
                  uc_policy_id = pe_id policy,
                  uc_owner = owner,
                  uc_trigger_value = trigger_threshold,
                  uc_actual_value = oracle_value,
                  uc_decimal_places = decimal_places,
                  uc_payout_amount = payout_amount,
                  uc_processed_at = epoch ctx,
                  uc_status = status,
                  uc_oracle_sources = 1\<rparr>
     in
     and_then (if status = 1 then process_claim_payout pool owner payout_amount else Inr pool)
       (\<lambda>pool'.
     Inr (pool', claim,
          \<lparr>cp_claim_id = uc_id claim,
           cp_policy_id = pe_id policy,
           cp_owner = owner,
           cp_payout_amount = payout_amount,
           cp_status = status\<rparr>)))))"

section \<open>Transactions and the specification's trigger condition\<close>

text \<open>
  A transaction that calls \<open>process_claim_with_aggregated_data\<close> on the objects of a
  ledger: the policy, the shared pool, the claim records transferred so far and the
  events emitted so far. Sui commits the effects of a transaction only if it does not
  abort: an aborted call leaves the ledger as it was and reports the error, a completed
  call replaces the pool and appends the claim record and the event. The policy is passed
  by immutable reference and stays as it is in both cases.
\<close>

record ClaimLedger =
  ledger_policy :: EnhancedPolicy
  ledger_pool :: LiquidityPool
  ledger_claims :: "UpdatedClaim list"
  ledger_events :: "ClaimProcessed list"

definition submit_claim ::
  "IntegrationAggregatedData \<Rightarrow> tx_context \<Rightarrow> ClaimLedger \<Rightarrow> error option \<times> ClaimLedger" where
  "submit_claim oracle_data ctx ledger =
     (case process_claim_with_aggregated_data (ledger_policy ledger) oracle_data
             (ledger_pool ledger) ctx of
        Inl e \<Rightarrow> (Some e, ledger)
      | Inr (pool', claim, event) \<Rightarrow>
          (None, ledger\<lparr>ledger_pool := pool',
                        ledger_claims := ledger_claims ledger @ [claim],
                        ledger_events := ledger_events ledger @ [event]\<rparr>))"

text \<open>
  The trigger condition in the words of the specification (4.4, step 3), on the observed
  value and the threshold as numbers: \<open>LESS_THAN\<close> is met iff
  \<open>observed \<le> threshold\<close>, \<open>GREATER_THAN\<close> iff \<open>observed \<ge> threshold\<close>, and
  \<open>EQUAL_WITHIN_TOLERANCE\<close> iff \<open>abs (observed - threshold) \<le> threshold / 100\<close>
  with the integer division. The policy stores the operator as the code 0, 1 or 2.
\<close>

datatype TriggerOperator = LESS_THAN | GREATER_THAN | EQUAL_WITHIN_TOLERANCE

definition operator_of_code :: "u8 \<Rightarrow> TriggerOperator option" where
  "operator_of_code c =
     (if c = 0 then Some LESS_THAN
      else if c = 1 then Some GREATER_THAN
      else if c = 2 then Some EQUAL_WITHIN_TOLERANCE
      else None)"

fun spec_trigger_met :: "TriggerOperator \<Rightarrow> nat \<Rightarrow> nat \<Rightarrow> bool" where
  "spec_trigger_met LESS_THAN observed threshold = (observed \<le> threshold)"
| "spec_trigger_met GREATER_THAN observed threshold = (observed \<ge> threshold)"
| "spec_trigger_met EQUAL_WITHIN_TOLERANCE observed threshold =
     (\<bar>int observed - int threshold\<bar> \<le> int (threshold div 100))"

text \<open>
  The median in the words of the specification (4.1): sort the values; the aggregate is
  the middle value when the count is odd, and the two middle values averaged with integer
  division, rounding down, when the count is even. Beside it, the mean with integer
  division.
\<close>

definition spec_median :: "nat list \<Rightarrow> nat" where
  "spec_median vs =
     (let sorted_values = sort vs; n = length vs in
      if even n then (sorted_values ! (n div 2 - 1) + sorted_values ! (n div 2)) div 2
      else sorted_values ! (n div 2))"

definition spec_mean :: "nat list \<Rightarrow> nat" where
  "spec_mean vs = sum_list vs div length vs"

text \<open>
  The operations that mutate a policy of \<open>policy_manager_enhanced\<close> after its creation,
  each a transaction of its own: an aborted one leaves the policy as it was. The
  invariant of the specification (3) is that the locked collateral covers the margin
  requirement.
\<close>

datatype policy_op =
    AddCollateral u64 tx_context
  | RemoveCollateral u64 tx_context
  | FundingPayment u64 bool tx_context

fun apply_policy_op :: "EnhancedPolicy \<Rightarrow> policy_op \<Rightarrow> error + EnhancedPolicy" where
  "apply_policy_op policy (AddCollateral coin ctx) = add_collateral policy coin ctx"
| "apply_policy_op policy (RemoveCollateral amount ctx) =
     and_then (remove_collateral policy amount ctx) (\<lambda>(policy', coin). Inr policy')"
| "apply_policy_op policy (FundingPayment rate direction ctx) =
     and_then (process_funding_payment policy rate direction ctx)
       (\<lambda>(policy', payment). Inr policy')"

definition commit_policy_op :: "EnhancedPolicy \<Rightarrow> policy_op \<Rightarrow> EnhancedPolicy" where
  "commit_policy_op policy operation =
     (case apply_policy_op policy operation of Inl e \<Rightarrow> policy | Inr policy' \<Rightarrow> policy')"

definition collateralized :: "EnhancedPolicy \<Rightarrow> bool" where
  "collateralized policy = (collateral_balance policy \<ge> margin_requirement policy)"

section \<open>Concrete states\<close>

text \<open>
  Scenario A of the specification: a first provider deposits 10000 into the empty pool, a
  second provider then deposits 5000. A payout of 5000 from the pool after the second
  deposit leaves 15000 shares over a liquidity of 10000; a payout of 10000 from the pool
  after the first deposit leaves shares outstanding over no liquidity.
\<close>

definition alice_ctx :: tx_context where
  "alice_ctx = \<lparr>sender = 1, epoch = 0, ids_created = 0\<rparr>"

definition bob_ctx :: tx_context where
  "bob_ctx = \<lparr>sender = 2, epoch = 0, ids_created = 0\<rparr>"

definition pool_after_first :: LiquidityPool where
  "pool_after_first = \<lparr>total_liquidity = 10000, lp_shares = [1 \<mapsto> 10000], total_shares = 10000\<rparr>"

definition pool_after_second :: LiquidityPool where
  "pool_after_second =
     \<lparr>total_liquidity = 15000, lp_shares = [1 \<mapsto> 10000, 2 \<mapsto> 5000], total_shares = 15000\<rparr>"

definition diluted_pool :: LiquidityPool where
  "diluted_pool =
     \<lparr>total_liquidity = 10000, lp_shares = [1 \<mapsto> 10000, 2 \<mapsto> 5000], total_shares = 15000\<rparr>"

definition drained_pool :: LiquidityPool where
  "drained_pool = \<lparr>total_liquidity = 0, lp_shares = [1 \<mapsto> 10000], total_shares = 10000\<rparr>"

text \<open>
  Scenarios B, C and D of the specification: a policy with threshold 25, the operator
  \<open>LESS_THAN\<close> and coverage 10000; aggregates with the values 20 and 30; a pool that
  can pay the coverage and one that holds only 5000.
\<close>

definition drought_policy :: EnhancedPolicy where
  "drought_policy =
     \<lparr>pe_id = 0, pe_owner = 1, pe_location = ''east-africa'',
      pe_location_coordinates = [], pe_peril_type = ''rainfall'', pe_peril_details = [],
      pe_coverage_amount = 10000, pe_trigger_threshold = 25, pe_trigger_operator = 0,
      collateral_balance = 3200, margin_requirement = 3200,
      funding_rate_paid = 0, funding_rate_received = 0,
      pe_active = True, pe_created_at = 0, pe_last_updated = 0\<rparr>"

text \<open>
  The same policy with the operator \<open>GREATER_THAN\<close>, and with
  \<open>EQUAL_WITHIN_TOLERANCE\<close> around the threshold 2500, whose tolerance is 25.
\<close>

definition heat_policy :: EnhancedPolicy where
  "heat_policy = drought_policy\<lparr>pe_trigger_operator := 1\<rparr>"

definition band_policy :: EnhancedPolicy where
  "band_policy = drought_policy\<lparr>pe_trigger_threshold := 2500, pe_trigger_operator := 2\<rparr>"

definition aggregate_of :: "u128 \<Rightarrow> IntegrationAggregatedData" where
  "aggregate_of v =
     \<lparr>si_id = 5, si_location = ''east-africa'', si_data_type = ''rainfall'',
      si_value = v, si_decimal_places = 8, si_timestamp = 0,
      si_min_timestamp = 0, si_max_timestamp = 0, si_mean = v, si_stdev = 0,
      si_min_value = v, si_max_value = v, si_sources_count = 3\<rparr>"

definition funded_pool :: LiquidityPool where
  "funded_pool = \<lparr>total_liquidity = 50000, lp_shares = [2 \<mapsto> 50000], total_shares = 50000\<rparr>"

definition small_pool :: LiquidityPool where
  "small_pool = \<lparr>total_liquidity = 5000, lp_shares = [2 \<mapsto> 5000], total_shares = 5000\<rparr>"

definition small_ledger :: ClaimLedger where
  "small_ledger =
     \<lparr>ledger_policy = drought_policy, ledger_pool = small_pool,
      ledger_claims = [], ledger_events = []\<rparr>"

text \<open>
  A policy of the module \<open>policy_manager\<close> with the same terms, the policy after its
  owner has terminated it, and an aggregate of the module \<open>oracle_aggregator\<close>.
\<close>

definition rainfall_policy :: Policy where
  "rainfall_policy = create_policy ''east-africa'' ''rainfall'' 10000 25 1200 alice_ctx"

definition terminated_policy :: Policy where
  "terminated_policy = rainfall_policy\<lparr>pm_active := False\<rparr>"

definition reading_of :: "u64 \<Rightarrow> AggregatedData" where
  "reading_of v =
     \<lparr>oa_id = 5, oa_location = ''east-africa'', oa_data_type = ''rainfall'',
      oa_value = v, oa_timestamp = 0, oa_sources_count = 3\<rparr>"

text \<open>
  A policy of \<open>policy_manager_enhanced\<close> in east-africa against drought, coverage 10000
  and margin requirement \<open>10000 * (1000 + 1200 + 1300) / 10000 = 3500\<close>, created with
  the collateral 4000 on the registry of the initialiser; the policy after its owner has
  terminated it; and the terminated policy after its owner has added a collateral of 1.
\<close>

definition covered_policy :: EnhancedPolicy where
  "covered_policy =
     \<lparr>pe_id = 0, pe_owner = 1, pe_location = ''east-africa'',
      pe_location_coordinates = [], pe_peril_type = ''drought'', pe_peril_details = [],
      pe_coverage_amount = 10000, pe_trigger_threshold = 25, pe_trigger_operator = 0,
      collateral_balance = 4000, margin_requirement = 3500,
      funding_rate_paid = 0, funding_rate_received = 0,
      pe_active = True, pe_created_at = 0, pe_last_updated = 0\<rparr>"

definition registry_with_policy :: PolicyRegistry where
  "registry_with_policy =
     \<lparr>policies = [0 \<mapsto> 1], policies_by_owner = [1 \<mapsto> [0]],
      policies_by_location = [''east-africa'' \<mapsto> [0]],
      policies_by_peril = [''drought'' \<mapsto> [0]],
      total_policies = 1, total_coverage = 10000\<rparr>"

definition terminated_covered_policy :: EnhancedPolicy where
  "terminated_covered_policy = covered_policy\<lparr>collateral_balance := 0, pe_active := False\<rparr>"

definition topped_up_policy :: EnhancedPolicy where
  "topped_up_policy = terminated_covered_policy\<lparr>collateral_balance := 1\<rparr>"

text \<open>
  Four feeds for rainfall in east-africa, registered by the authority 9.
\<close>

definition rainfall_registry :: OracleFeedRegistry where
  "rainfall_registry =
     \<lparr>feeds = [''gauge-a'' \<mapsto> 11, ''gauge-b'' \<mapsto> 12, ''gauge-c'' \<mapsto> 13, ''gauge-d'' \<mapsto> 14],
      feed_authorities = [11 \<mapsto> 9, 12 \<mapsto> 9, 13 \<mapsto> 9, 14 \<mapsto> 9],
      feed_types =
        [11 \<mapsto> ''rainfall'', 12 \<mapsto> ''rainfall'', 13 \<mapsto> ''rainfall'', 14 \<mapsto> ''rainfall''],
      feed_locations =
        [11 \<mapsto> ''east-africa'', 12 \<mapsto> ''east-africa'', 13 \<mapsto> ''east-africa'',
         14 \<mapsto> ''east-africa'']\<rparr>"

section \<open>Checked arithmetic\<close>

declare sum_values.simps [simp del] verify_feeds.simps [simp del]
  bubble_inner.simps [simp del] bubble_outer.simps [simp del]
  total_deviation.simps [simp del] closest_tier_loop.simps [simp del]

lemma and_then_Inr_iff:
  "and_then r f = Inr y \<longleftrightarrow> (\<exists>x. r = Inr x \<and> f x = Inr y)"
  by (cases r) (simp_all add: and_then_def)

lemma and_then_Inl [simp]: "and_then (Inl e) f = Inl e"
  by (simp add: and_then_def)

lemma and_then_Inr [simp]: "and_then (Inr x) f = f x"
  by (simp add: and_then_def)

lemma assert_that_Inr_iff [simp]: "assert_that c e = Inr u \<longleftrightarrow> c"
  by (simp add: assert_that_def)

lemma assert_that_True [simp]: "assert_that True e = Inr ()"
  by (simp add: assert_that_def)

lemma assert_that_False [simp]: "assert_that False e = Inl e"
  by (simp add: assert_that_def)

lemma add_u64_Inr: "add_u64 a b = Inr c \<Longrightarrow> unat c = unat a + unat b"
  by (auto simp: add_u64_def MAX_U64_def unat_word_ariths split: if_splits)

lemma mul_u64_Inr: "mul_u64 a b = Inr c \<Longrightarrow> unat c = unat a * unat b"
  by (auto simp: mul_u64_def MAX_U64_def unat_word_ariths split: if_splits)

lemma div_u64_Inr: "div_u64 a b = Inr c \<Longrightarrow> unat c = unat a div unat b \<and> b \<noteq> 0"
  by (auto simp: div_u64_def unat_div split: if_splits)

lemma sub_u64_Inr: "sub_u64 a b = Inr c \<Longrightarrow> unat c = unat a - unat b \<and> unat b \<le> unat a"
  by (auto simp: sub_u64_def unat_sub word_le_nat_alt split: if_splits)

lemma unat_of_nat_u64: "n \<le> MAX_U64 \<Longrightarrow> unat (of_nat n :: u64) = n"
  by (simp add: unat_of_nat MAX_U64_def)

lemma mul_u64_cases: "mul_u64 a b = Inl ArithmeticError \<or> (\<exists>c. mul_u64 a b = Inr c)"
  by (simp add: mul_u64_def)

lemma div_u64_zero [simp]: "div_u64 a 0 = Inl ArithmeticError"
  by (simp add: div_u64_def)

lemma mul_u64_zero [simp]: "mul_u64 0 b = Inr 0"
  by (simp add: mul_u64_def)

section \<open>The liquidity pool\<close>

lemma add_liquidity_first:
  "add_liquidity (create_pool alice_ctx) 10000 alice_ctx =
     Inr (pool_after_first,
          \<lparr>lpt_id = 0, lpt_owner = 1, lpt_shares = 10000\<rparr>,
          \<lparr>la_provider = 1, la_amount = 10000, la_shares = 10000\<rparr>)"
  by (simp add: add_liquidity_def create_pool_def alice_ctx_def pool_after_first_def
      add_u64_def MAX_U64_def object_new_def)

lemma add_liquidity_second:
  "add_liquidity pool_after_first 5000 bob_ctx =
     Inr (pool_after_second,
          \<lparr>lpt_id = 0, lpt_owner = 2, lpt_shares = 5000\<rparr>,
          \<lparr>la_provider = 2, la_amount = 5000, la_shares = 5000\<rparr>)"
  by (simp add: add_liquidity_def bob_ctx_def pool_after_first_def pool_after_second_def
      add_u64_def mul_u64_def div_u64_def MAX_U64_def object_new_def)

text \<open>
  What a deposit does when it returns: the shares of the token are the amount when
  \<open>total_shares\<close> is 0 and \<open>amount * total_shares / total_liquidity\<close>, rounded
  down, otherwise; \<open>total_liquidity\<close> grows by the amount, the depositor's entry and
  \<open>total_shares\<close> grow by the issued shares, and no other entry changes.
\<close>

lemma add_liquidity_Inr:
  assumes "add_liquidity pool coin ctx = Inr (pool', token, event)"
  shows "unat (lpt_shares token) =
           (if total_shares pool = 0 then unat coin
            else unat coin * unat (total_shares pool) div unat (total_liquidity pool))
       \<and> unat (total_liquidity pool') = unat (total_liquidity pool) + unat coin
       \<and> (\<exists>held. lp_shares pool' (sender ctx) = Some held \<and>
            unat held = (case lp_shares pool (sender ctx) of None \<Rightarrow> 0 | Some c \<Rightarrow> unat c)
                        + unat (lpt_shares token))
       \<and> (\<forall>a. a \<noteq> sender ctx \<longrightarrow> lp_shares pool' a = lp_shares pool a)
       \<and> unat (total_shares pool') = unat (total_shares pool) + unat (lpt_shares token)"
  using assms
  apply (simp add: add_liquidity_def Let_def and_then_Inr_iff)
  apply (elim exE conjE)
  apply (auto simp: and_then_Inr_iff dest!: add_u64_Inr mul_u64_Inr div_u64_Inr
      split: if_splits option.splits)
  done

text \<open>
  Under the precondition \<open>total_shares = 0\<close> or \<open>total_liquidity > 0\<close> a deposit whose
  product and sums stay within \<open>u64\<close> succeeds: the share calculation is division-safe.
\<close>

lemma add_liquidity_succeeds:
  assumes "total_shares pool = 0 \<or> total_liquidity pool \<noteq> 0"
    and "unat coin * unat (total_shares pool) \<le> MAX_U64"
    and "unat (total_liquidity pool) + unat coin \<le> MAX_U64"
    and "n = (if total_shares pool = 0 then unat coin
              else unat coin * unat (total_shares pool) div unat (total_liquidity pool))"
    and "unat (total_shares pool) + n \<le> MAX_U64"
    and "case lp_shares pool (sender ctx) of None \<Rightarrow> True
         | Some c \<Rightarrow> unat c + n \<le> MAX_U64"
  shows "\<exists>r. add_liquidity pool coin ctx = Inr r"
proof -
  obtain shares where s:
    "(if total_shares pool = 0 then Inr coin
      else and_then (mul_u64 coin (total_shares pool))
             (\<lambda>product. div_u64 product (total_liquidity pool))) = Inr shares"
  proof (cases "total_shares pool = 0")
    case True
    then show ?thesis using that by simp
  next
    case False
    then show ?thesis using that assms(1,2) by (simp add: mul_u64_def div_u64_def)
  qed
  have "unat shares = n"
    using s assms(4)
    by (auto simp: and_then_Inr_iff dest!: mul_u64_Inr div_u64_Inr split: if_splits)
  then have "unat (total_shares pool) + unat shares \<le> MAX_U64"
    and "\<And>c. lp_shares pool (sender ctx) = Some c \<Longrightarrow> unat c + unat shares \<le> MAX_U64"
    using assms(5,6) by (auto split: option.splits)
  then show ?thesis
    using s assms(3)
    by (auto simp: add_liquidity_def Let_def add_u64_def split: option.splits)
qed

text \<open>
  A deposit that returns has met the arithmetic conditions of the next theorem.
\<close>

lemma add_liquidity_Inr_fits:
  assumes "add_liquidity pool coin ctx = Inr r"
  shows "(total_shares pool = 0 \<or> total_liquidity pool \<noteq> 0)
       \<and> (total_shares pool \<noteq> 0 \<longrightarrow> unat coin * unat (total_shares pool) \<le> MAX_U64)
       \<and> unat (total_liquidity pool) + unat coin \<le> MAX_U64"
  using assms
  by (auto simp: add_liquidity_def Let_def and_then_Inr_iff mul_u64_def add_u64_def
      div_u64_def split: if_splits)

text \<open>
  C4. A deposit into a pool with \<open>total_shares = 0\<close> or \<open>total_liquidity > 0\<close>,
  whose product \<open>amount * total_shares\<close> and whose sums stay within \<open>u64\<close>, returns:
  it issues shares equal to the amount when \<open>total_shares\<close> is 0 and
  \<open>amount * total_shares / total_liquidity\<close>, rounded down, otherwise; it raises
  \<open>total_liquidity\<close> by the amount, adds the issued shares to what the depositor held
  (nothing, if the depositor had no entry) and to \<open>total_shares\<close>, and leaves every
  other provider's shares alone.
\<close>

theorem add_liquidity_issues_shares:
  assumes "total_shares pool = 0 \<or> total_liquidity pool \<noteq> 0"
    and "unat coin * unat (total_shares pool) \<le> MAX_U64"
    and "unat (total_liquidity pool) + unat coin \<le> MAX_U64"
    and "shares = (if total_shares pool = 0 then unat coin
                   else unat coin * unat (total_shares pool) div unat (total_liquidity pool))"
    and "held = (case lp_shares pool (sender ctx) of None \<Rightarrow> 0 | Some c \<Rightarrow> unat c)"
    and "unat (total_shares pool) + shares \<le> MAX_U64"
    and "held + shares \<le> MAX_U64"
  shows "\<exists>pool' token event.
           add_liquidity pool coin ctx = Inr (pool', token, event)
         \<and> lpt_owner token = sender ctx
         \<and> unat (lpt_shares token) = shares
         \<and> unat (total_liquidity pool') = unat (total_liquidity pool) + unat coin
         \<and> (\<exists>now. lp_shares pool' (sender ctx) = Some now \<and> unat now = held + shares)
         \<and> (\<forall>a. a \<noteq> sender ctx \<longrightarrow> lp_shares pool' a = lp_shares pool a)
         \<and> unat (total_shares pool') = unat (total_shares pool) + shares"
proof -
  have "case lp_shares pool (sender ctx) of None \<Rightarrow> True
         | Some c \<Rightarrow> unat c + shares \<le> MAX_U64"
    using assms(5,7) by (simp split: option.splits)
  from add_liquidity_succeeds [OF assms(1-4,6) this]
  obtain pool' token event where r: "add_liquidity pool coin ctx = Inr (pool', token, event)"
    by (metis prod_cases3)
  have "lpt_owner token = sender ctx"
    using r by (auto simp: add_liquidity_def Let_def and_then_Inr_iff)
  then show ?thesis
    using add_liquidity_Inr [OF r] r assms(4,5) by auto
qed

text \<open>
  Scenario A: on the empty pool the deposit of 10000 issues 10000 shares, and the second
  deposit of 5000 issues \<open>5000 * 10000 / 10000 = 5000\<close> shares. On the pool with 15000
  shares over a liquidity of 10000, a deposit of 1001 by the second provider issues
  \<open>1001 * 15000 / 10000 = 1501\<close> shares, rounded down from 1501.5, on top of the 5000
  that the provider holds.
\<close>

theorem add_liquidity_issues_shares_witness:
  "(\<exists>pool' token event.
      add_liquidity (create_pool alice_ctx) 10000 alice_ctx = Inr (pool', token, event)
      \<and> unat (lpt_shares token) = 10000 \<and> unat (total_shares pool') = 10000
      \<and> unat (total_liquidity pool') = 10000
      \<and> (\<exists>now. lp_shares pool' (sender alice_ctx) = Some now \<and> unat now = 10000))
   \<and> (\<exists>pool' token event.
      add_liquidity pool_after_first 5000 bob_ctx = Inr (pool', token, event)
      \<and> unat (lpt_shares token) = 5000 \<and> unat (total_shares pool') = 15000
      \<and> unat (total_liquidity pool') = 15000
      \<and> (\<exists>now. lp_shares pool' (sender bob_ctx) = Some now \<and> unat now = 5000))
   \<and> (\<exists>pool' token event.
      add_liquidity diluted_pool 1001 bob_ctx = Inr (pool', token, event)
      \<and> unat (lpt_shares token) = 1501 \<and> unat (total_shares pool') = 16501
      \<and> unat (total_liquidity pool') = 11001
      \<and> (\<exists>now. lp_shares pool' (sender bob_ctx) = Some now \<and> unat now = 6501))"
proof -
  have first: "\<exists>pool' token event.
      add_liquidity (create_pool alice_ctx) 10000 alice_ctx = Inr (pool', token, event)
      \<and> unat (lpt_shares token) = 10000 \<and> unat (total_shares pool') = 10000
      \<and> unat (total_liquidity pool') = 10000
      \<and> (\<exists>now. lp_shares pool' (sender alice_ctx) = Some now \<and> unat now = 10000)"
  proof -
    have v: "unat (total_shares (create_pool alice_ctx)) = 0"
      "unat (total_liquidity (create_pool alice_ctx)) = 0"
      "total_shares (create_pool alice_ctx) = 0"
      "lp_shares (create_pool alice_ctx) (sender alice_ctx) = None"
      by (simp_all add: create_pool_def alice_ctx_def)
    have h: "total_shares (create_pool alice_ctx) = 0 \<or> total_liquidity (create_pool alice_ctx) \<noteq> 0"
      "unat (10000 :: u64) * unat (total_shares (create_pool alice_ctx)) \<le> MAX_U64"
      "unat (total_liquidity (create_pool alice_ctx)) + unat (10000 :: u64) \<le> MAX_U64"
      "10000 = (if total_shares (create_pool alice_ctx) = 0 then unat (10000 :: u64)
           else unat (10000 :: u64) * unat (total_shares (create_pool alice_ctx))
                div unat (total_liquidity (create_pool alice_ctx)))"
      "0 = (case lp_shares (create_pool alice_ctx) (sender alice_ctx) of None \<Rightarrow> 0 | Some c \<Rightarrow> unat c)"
      "unat (total_shares (create_pool alice_ctx)) + 10000 \<le> MAX_U64"
      "0 + 10000 \<le> MAX_U64"
      by (simp_all add: v MAX_U64_def)
    from add_liquidity_issues_shares [OF h] show ?thesis unfolding v by auto
  qed
  have second: "\<exists>pool' token event.
      add_liquidity pool_after_first 5000 bob_ctx = Inr (pool', token, event)
      \<and> unat (lpt_shares token) = 5000 \<and> unat (total_shares pool') = 15000
      \<and> unat (total_liquidity pool') = 15000
      \<and> (\<exists>now. lp_shares pool' (sender bob_ctx) = Some now \<and> unat now = 5000)"
  proof -
    have v: "unat (total_shares pool_after_first) = 10000"
      "unat (total_liquidity pool_after_first) = 10000"
      "total_shares pool_after_first \<noteq> 0" "total_liquidity pool_after_first \<noteq> 0"
      "lp_shares pool_after_first (sender bob_ctx) = None"
      by (simp_all add: pool_after_first_def bob_ctx_def)
    have h: "total_shares pool_after_first = 0 \<or> total_liquidity pool_after_first \<noteq> 0"
      "unat (5000 :: u64) * unat (total_shares pool_after_first) \<le> MAX_U64"
      "unat (total_liquidity pool_after_first) + unat (5000 :: u64) \<le> MAX_U64"
      "5000 = (if total_shares pool_after_first = 0 then unat (5000 :: u64)
           else unat (5000 :: u64) * unat (total_shares pool_after_first)
                div unat (total_liquidity pool_after_first))"
      "0 = (case lp_shares pool_after_first (sender bob_ctx) of None \<Rightarrow> 0 | Some c \<Rightarrow> unat c)"
      "unat (total_shares pool_after_first) + 5000 \<le> MAX_U64"
      "0 + 5000 \<le> MAX_U64"
      by (simp_all add: v MAX_U64_def)
    from add_liquidity_issues_shares [OF h] show ?thesis unfolding v by auto
  qed
  have third: "\<exists>pool' token event.
      add_liquidity diluted_pool 1001 bob_ctx = Inr (pool', token, event)
      \<and> unat (lpt_shares token) = 1501 \<and> unat (total_shares pool') = 16501
      \<and> unat (total_liquidity pool') = 11001
      \<and> (\<exists>now. lp_shares pool' (sender bob_ctx) = Some now \<and> unat now = 6501)"
  proof -
    have v: "unat (total_shares diluted_pool) = 15000"
      "unat (total_liquidity diluted_pool) = 10000"
      "total_shares diluted_pool \<noteq> 0" "total_liquidity diluted_pool \<noteq> 0"
      "lp_shares diluted_pool (sender bob_ctx) = Some 5000"
      by (simp_all add: diluted_pool_def bob_ctx_def)
    have h: "total_shares diluted_pool = 0 \<or> total_liquidity diluted_pool \<noteq> 0"
      "unat (1001 :: u64) * unat (total_shares diluted_pool) \<le> MAX_U64"
      "unat (total_liquidity diluted_pool) + unat (1001 :: u64) \<le> MAX_U64"
      "1501 = (if total_shares diluted_pool = 0 then unat (1001 :: u64)
           else unat (1001 :: u64) * unat (total_shares diluted_pool)
                div unat (total_liquidity diluted_pool))"
      "5000 = (case lp_shares diluted_pool (sender bob_ctx) of None \<Rightarrow> 0 | Some c \<Rightarrow> unat c)"
      "unat (total_shares diluted_pool) + 1501 \<le> MAX_U64"
      "5000 + 1501 \<le> MAX_U64"
      by (simp_all add: v MAX_U64_def)
    from add_liquidity_issues_shares [OF h] show ?thesis unfolding v by auto
  qed
  show ?thesis using first second third by blast
qed

text \<open>
  C10. On every pool with \<open>total_shares > 0\<close> and \<open>total_liquidity = 0\<close>, every
  deposit, of any amount by any sender, aborts in the share calculation
  \<open>(amount * total_shares) / total_liquidity\<close> with the arithmetic error of the
  division by zero (for an amount whose product with \<open>total_shares\<close> leaves \<open>u64\<close>
  the same arithmetic error is raised by the product, one step earlier). The abort
  leaves the pool as it was, so no deposit succeeds while the pool is in such a state.
\<close>

theorem add_liquidity_aborts_on_drained_pool:
  assumes "total_shares pool \<noteq> 0" and "total_liquidity pool = 0"
  shows "add_liquidity pool coin ctx = Inl ArithmeticError"
  using assms mul_u64_cases [of coin "total_shares pool"]
  by (auto simp: add_liquidity_def Let_def)

theorem add_liquidity_aborts_on_drained_pool_witness:
  "total_shares drained_pool \<noteq> 0 \<and> total_liquidity drained_pool = 0
   \<and> add_liquidity drained_pool 5000 bob_ctx = Inl ArithmeticError"
proof -
  have h: "total_shares drained_pool \<noteq> 0" "total_liquidity drained_pool = 0"
    by (simp_all add: drained_pool_def)
  show ?thesis
    using h add_liquidity_aborts_on_drained_pool [OF h, of 5000 bob_ctx] by simp
qed

text \<open>Such a pool is reached when a payout takes all the liquidity of the first deposit.\<close>

lemma drained_pool_reachable:
  "process_claim_payout pool_after_first 1 10000 = Inr drained_pool"
  by (simp add: process_claim_payout_def pool_after_first_def drained_pool_def)

text \<open>
  The pool leaves the state only when the outstanding shares are redeemed, for nothing:
  \<open>remove_liquidity\<close> of the 10000 shares returns the amount 0 and brings
  \<open>total_shares\<close> back to 0.
\<close>

lemma drained_pool_redeemed:
  "remove_liquidity drained_pool \<lparr>lpt_id = 0, lpt_owner = 1, lpt_shares = 10000\<rparr> alice_ctx
     = Inr (\<lparr>total_liquidity = 0, lp_shares = [1 \<mapsto> 0], total_shares = 0\<rparr>, 0,
            \<lparr>lr_provider = 1, lr_amount = 0, lr_shares = 10000\<rparr>)"
  by (simp add: remove_liquidity_def drained_pool_def alice_ctx_def mul_u64_def div_u64_def
      sub_u64_def MAX_U64_def)

section \<open>The risk model\<close>

lemma adjustment_zero [simp]: "adjustment 0 factor = Inr 0"
  by (simp add: adjustment_def div_u64_def sub_u64_def)

text \<open>
  An adjustment by a factor below 100 on a premium that is not 0 aborts: the scaled
  premium is smaller than the premium, and the subtraction is a \<open>u64\<close> subtraction.
\<close>

lemma adjustment_discount_aborts:
  assumes "factor < 100" and "base \<noteq> 0"
  shows "adjustment base factor = Inl ArithmeticError"
proof (cases "mul_u64 base factor")
  case (Inl e)
  then show ?thesis by (simp add: adjustment_def mul_u64_def split: if_splits)
next
  case (Inr p)
  then have p: "unat p = unat base * unat factor" by (rule mul_u64_Inr)
  have f: "unat factor < 100" using assms(1) by (simp add: word_less_nat_alt)
  have b: "0 < unat base" using assms(2) by (simp add: unat_gt_0)
  have "unat base * unat factor < unat base * 100" using f b by simp
  then have "unat base * unat factor div 100 < unat base"
    by (simp add: less_mult_imp_div_less mult.commute)
  then have "unat (p div 100) < unat base" using p by (simp add: unat_div)
  then show ?thesis using Inr by (simp add: adjustment_def div_u64_def sub_u64_def)
qed

text \<open>
  C8, as amended. For every risk model, location, peril type and month,
  \<open>calculate_premium\<close> with \<open>coverage_amount = 0\<close> returns no quote: the base premium,
  the four adjustments and the final premium are all 0, and the daily funding rate
  \<open>(final_premium * 10000) / (coverage_amount * 365)\<close> divides by 0, which aborts with
  the arithmetic error. No check of the coverage amount precedes the computation.
\<close>

theorem calculate_premium_zero_coverage_aborts:
  "calculate_premium model location peril_type 0 current_month policy_id = Inl ArithmeticError"
  by (simp add: calculate_premium_def Let_def div_u64_def add_u64_def)

text \<open>
  On the default model the call with coverage 0 ends in the arithmetic error, not in
  \<open>InvalidCoverageAmount\<close>.
\<close>

theorem calculate_premium_zero_coverage_counterexample:
  "calculate_premium (create_risk_model ''default'' ''1.0'' 500 alice_ctx)
     ''east-africa'' ''drought'' 0 1 None = Inl ArithmeticError
   \<and> calculate_premium (create_risk_model ''default'' ''1.0'' 500 alice_ctx)
     ''east-africa'' ''drought'' 0 1 None \<noteq> Inl InvalidCoverageAmount"
  by (simp add: calculate_premium_def Let_def div_u64_def add_u64_def)

lemma closest_tier_50000:
  "closest_tier_loop coverage_tiers 50000 0 1000000000 10000 = 50000"
  by (simp add: coverage_tiers_def closest_tier_loop.simps)

lemma adjustments_2500:
  "adjustment 2500 120 = Inr 500" "adjustment 2500 130 = Inr 750" "adjustment 2500 100 = Inr 0"
  by (simp_all add: adjustment_def mul_u64_def div_u64_def sub_u64_def MAX_U64_def)

text \<open>
  C9. The model that \<open>create_risk_model\<close> builds, with base rate 500, asked for a
  coverage of 50000 in east-africa against drought in January: the base premium is 2500,
  the location and peril adjustments are 500 and 750, the seasonal one is 0, and the
  closest tier is 50000 with the default factor 90. The coverage adjustment
  \<open>2500 * 90 / 100 - 2500\<close> is then \<open>2250 - 2500\<close> on \<open>u64\<close>, and the call aborts.
\<close>

theorem calculate_premium_volume_discount_aborts:
  "calculate_premium (create_risk_model ''default'' ''1.0'' 500 alice_ctx)
     ''east-africa'' ''drought'' 50000 1 None = Inl ArithmeticError"
  by (simp add: calculate_premium_def create_risk_model_def Let_def closest_tier_50000
      adjustments_2500 mul_u64_def div_u64_def MAX_U64_def adjustment_discount_aborts)

section \<open>The confidence score\<close>

lemma total_deviation_0_0_3: "total_deviation [0, 0, 3] 0 0 0 = Inr 3"
  by (simp add: total_deviation.simps add_u64_def MAX_U64_def Let_def)

lemma total_deviation_0_0: "total_deviation [0, 0] 0 0 0 = Inr 0"
  by (simp add: total_deviation.simps add_u64_def MAX_U64_def Let_def)

lemma total_deviation_5_100_290: "total_deviation [5, 100, 290] 100 0 0 = Inr 285"
  by (simp add: total_deviation.simps add_u64_def MAX_U64_def Let_def)

text \<open>
  C7, as amended. The confidence score is 10000 for every single-source batch. Whenever
  \<open>calculate_confidence\<close> returns a score, it is at most 10000. When the median is 0, a
  batch of several sources whose deviations add up within \<open>u64\<close> gets 10000 if the
  average deviation, rounded down, is 0 (the sources agree), and the fixed 5000
  otherwise; the median is never a divisor then.
\<close>

theorem calculate_confidence_score:
  "(length values = 1 \<longrightarrow> calculate_confidence values median = Inr 10000)
   \<and> (calculate_confidence values median = Inr c \<longrightarrow> c \<le> 10000)
   \<and> (1 < length values \<and> length values \<le> MAX_U64
        \<and> total_deviation values 0 0 0 = Inr t \<longrightarrow>
      calculate_confidence values 0 =
        Inr (if t div of_nat (length values) = 0 then 10000 else 5000))"
proof (intro conjI impI)
  assume "length values = 1"
  then show "calculate_confidence values median = Inr 10000"
    by (simp add: calculate_confidence_def)
next
  assume "calculate_confidence values median = Inr c"
  then show "c \<le> 10000"
    by (auto simp: calculate_confidence_def Let_def and_then_Inr_iff word_le_nat_alt
        dest!: sub_u64_Inr split: if_splits)
next
  assume a: "1 < length values \<and> length values \<le> MAX_U64
     \<and> total_deviation values 0 0 0 = Inr t"
  then have "unat (of_nat (length values) :: u64) = length values"
    by (simp add: unat_of_nat_u64)
  then have "(of_nat (length values) :: u64) \<noteq> 0" using a by auto
  then show "calculate_confidence values 0 =
      Inr (if t div of_nat (length values) = 0 then 10000 else 5000)"
    using a by (simp add: calculate_confidence_def Let_def div_u64_def)
qed

theorem calculate_confidence_score_witness:
  "length [7 :: u64] = 1 \<and> calculate_confidence [7] 7 = Inr 10000
   \<and> 1 < length [0, 0, 3 :: u64] \<and> length [0, 0, 3 :: u64] \<le> MAX_U64
   \<and> total_deviation [0, 0, 3] 0 0 0 = Inr 3
   \<and> calculate_confidence [0, 0, 3] 0 = Inr 5000 \<and> (5000 :: u64) \<le> 10000"
proof -
  have h: "1 < length [0, 0, 3 :: u64] \<and> length [0, 0, 3 :: u64] \<le> MAX_U64
      \<and> total_deviation [0, 0, 3] 0 0 0 = Inr 3"
    by (simp add: MAX_U64_def total_deviation_0_0_3)
  have "calculate_confidence [0, 0, 3] 0 = Inr 5000"
    using calculate_confidence_score [of "[0, 0, 3]" 0 5000 3] h by simp
  moreover have "calculate_confidence [7] 7 = Inr 10000"
    using calculate_confidence_score [of "[7]" 7 10000 0] by simp
  ultimately show ?thesis using h by simp
qed

text \<open>
  Two sources that both report 0: the median is 0 and the score is 10000, not 5000.
\<close>

theorem calculate_confidence_counterexample:
  "1 < length [0, 0 :: u64] \<and> median_value [0, 0] = Inr 0
   \<and> calculate_confidence [0, 0] 0 = Inr 10000
   \<and> calculate_confidence [0, 0] 0 \<noteq> Inr 5000"
  by (simp add: calculate_confidence_def median_value_def Let_def total_deviation_0_0
      div_u64_def add_u64_def MAX_U64_def)

text \<open>
  The values 5, 100 and 290 have the median 100 and the average deviation 95; the
  deviation percentage 9500 is below 10000, so the score is \<open>10000 - 9500 = 500\<close>,
  below the 1000 that the branch for percentages from 10000 on returns as the minimum.
\<close>

lemma calculate_confidence_below_minimum:
  "calculate_confidence [5, 100, 290] 100 = Inr 500"
  by (simp add: calculate_confidence_def Let_def total_deviation_5_100_290
      div_u64_def mul_u64_def sub_u64_def MAX_U64_def)

section \<open>Claim processing\<close>

lemma as_u64_Inr: "as_u64 v = Inr w \<Longrightarrow> unat w = unat v"
  by (auto simp: as_u64_def MAX_U64_def unsigned_ucast_eq take_bit_nat_eq_self_iff split: if_splits)

lemma as_u64_fits: "unat v \<le> MAX_U64 \<Longrightarrow> \<exists>w. as_u64 v = Inr w"
  by (simp add: as_u64_def)

lemma operator_of_code_Some:
  "operator_of_code c = Some op \<Longrightarrow>
     (c = 0 \<and> op = LESS_THAN) \<or> (c = 1 \<and> op = GREATER_THAN) \<or> (c = 2 \<and> op = EQUAL_WITHIN_TOLERANCE)"
  by (auto simp: operator_of_code_def split: if_splits)

lemma trigger_expression:
  assumes "operator_of_code c = Some op" and "unat w = observed"
  shows "(if c = 0 then w \<le> threshold
          else if c = 1 then w \<ge> threshold
          else if c = 2 then
            (let diff = (if w > threshold then w - threshold else threshold - w)
             in diff \<le> threshold div 100)
          else False)
         \<longleftrightarrow> spec_trigger_met op observed (unat (threshold :: u64))"
proof -
  have abs_nat: "((if b < a then a - b else b - a) \<le> t) = (\<bar>int a - int b\<bar> \<le> int t)"
    for a b t :: nat
    by (simp add: abs_if) linarith
  have diff: "unat (if w > threshold then w - threshold else threshold - w) =
      (if unat threshold < unat w then unat w - unat threshold else unat threshold - unat w)"
    by (simp add: word_less_nat_alt unat_sub word_le_nat_alt)
  consider "c = 0" "op = LESS_THAN" | "c = 1" "op = GREATER_THAN"
    | "c = 2" "op = EQUAL_WITHIN_TOLERANCE"
    using operator_of_code_Some [OF assms(1)] by blast
  then show ?thesis
  proof cases
    case 1
    then show ?thesis using assms(2) by (simp add: word_le_nat_alt)
  next
    case 2
    then show ?thesis using assms(2) by (simp add: word_le_nat_alt)
  next
    case 3
    have "(if w > threshold then w - threshold else threshold - w) \<le> threshold div 100
       \<longleftrightarrow> (if unat threshold < unat w then unat w - unat threshold
            else unat threshold - unat w) \<le> unat threshold div 100"
      unfolding word_le_nat_alt diff by (simp add: unat_div)
    also have "\<dots> \<longleftrightarrow> \<bar>int (unat w) - int (unat threshold)\<bar> \<le> int (unat threshold div 100)"
      by (rule abs_nat)
    finally show ?thesis using 3 assms(2) by (simp add: Let_def)
  qed
qed

lemma process_claim_with_aggregated_data_unfold:
  assumes "pe_active policy" and "pe_location policy = si_location d"
    and "pe_peril_type policy = si_data_type d" and "as_u64 (si_value d) = Inr w"
  shows "process_claim_with_aggregated_data policy d pool ctx =
     (let c = pe_trigger_operator policy; threshold = pe_trigger_threshold policy;
          trigger_met =
           (if c = 0 then w \<le> threshold
            else if c = 1 then w \<ge> threshold
            else if c = 2 then
              (let diff = (if w > threshold then w - threshold else threshold - w)
               in diff \<le> threshold div 100)
            else False)
      in if trigger_met then
           and_then (process_claim_payout pool (pe_owner policy) (pe_coverage_amount policy))
            (\<lambda>pool'. Inr (pool',
               \<lparr>uc_id = fst (object_new ctx), uc_policy_id = pe_id policy, uc_owner = pe_owner policy,
                uc_trigger_value = threshold, uc_actual_value = si_value d, uc_decimal_places = 8,
                uc_payout_amount = pe_coverage_amount policy, uc_processed_at = epoch ctx,
                uc_status = 1, uc_oracle_sources = si_sources_count d\<rparr>,
               \<lparr>cp_claim_id = fst (object_new ctx), cp_policy_id = pe_id policy, cp_owner = pe_owner policy,
                cp_payout_amount = pe_coverage_amount policy, cp_status = 1\<rparr>))
         else Inr (pool,
               \<lparr>uc_id = fst (object_new ctx), uc_policy_id = pe_id policy, uc_owner = pe_owner policy,
                uc_trigger_value = threshold, uc_actual_value = si_value d, uc_decimal_places = 8,
                uc_payout_amount = 0, uc_processed_at = epoch ctx,
                uc_status = 2, uc_oracle_sources = si_sources_count d\<rparr>,
               \<lparr>cp_claim_id = fst (object_new ctx), cp_policy_id = pe_id policy, cp_owner = pe_owner policy,
                cp_payout_amount = 0, cp_status = 2\<rparr>))"
  using assms
  by (simp add: process_claim_with_aggregated_data_def get_policy_details_def
      get_aggregated_data_details_def get_trigger_operator_def Let_def)

lemma process_claim_with_aggregated_data_Inr:
  assumes "process_claim_with_aggregated_data policy d pool ctx = Inr r"
  shows "pe_active policy \<and> pe_location policy = si_location d
     \<and> pe_peril_type policy = si_data_type d \<and> (\<exists>w. as_u64 (si_value d) = Inr w)"
  using assms
  by (auto simp: process_claim_with_aggregated_data_def get_policy_details_def
      get_aggregated_data_details_def and_then_Inr_iff)


lemma process_claim_payout_Inr:
  "process_claim_payout pool r a = Inr pool' \<Longrightarrow>
     unat a \<le> unat (total_liquidity pool)
     \<and> pool' = pool\<lparr>total_liquidity := total_liquidity pool - a\<rparr>"
  by (auto simp: process_claim_payout_def split: if_splits)

text \<open>
  An active policy, a matching aggregate whose value fits \<open>u64\<close>, and a pool that can
  pay the coverage whenever the trigger is met: the call returns.
\<close>

lemma process_claim_with_aggregated_data_returns:
  assumes "pe_active policy"
    and "pe_location policy = si_location oracle_data"
    and "pe_peril_type policy = si_data_type oracle_data"
    and "unat (si_value oracle_data) \<le> MAX_U64"
    and "unat (pe_coverage_amount policy) \<le> unat (total_liquidity pool)"
  shows "\<exists>r. process_claim_with_aggregated_data policy oracle_data pool ctx = Inr r"
proof -
  obtain w where w: "as_u64 (si_value oracle_data) = Inr w"
    using as_u64_fits [OF assms(4)] by blast
  show ?thesis
    unfolding process_claim_with_aggregated_data_unfold [OF assms(1-3) w]
    using assms(5) by (simp add: Let_def process_claim_payout_def)
qed

lemma scenario_B:
  "process_claim_with_aggregated_data drought_policy (aggregate_of 20) funded_pool bob_ctx =
     Inr (funded_pool\<lparr>total_liquidity := 40000\<rparr>,
          \<lparr>uc_id = 0, uc_policy_id = 0, uc_owner = 1, uc_trigger_value = 25,
           uc_actual_value = 20, uc_decimal_places = 8, uc_payout_amount = 10000,
           uc_processed_at = 0, uc_status = 1, uc_oracle_sources = 3\<rparr>,
          \<lparr>cp_claim_id = 0, cp_policy_id = 0, cp_owner = 1,
           cp_payout_amount = 10000, cp_status = 1\<rparr>)"
  by (simp add: process_claim_with_aggregated_data_def get_policy_details_def
      get_aggregated_data_details_def get_trigger_operator_def drought_policy_def
      aggregate_of_def funded_pool_def bob_ctx_def object_new_def as_u64_def MAX_U64_def
      process_claim_payout_def Let_def)

lemma scenario_C:
  "process_claim_with_aggregated_data drought_policy (aggregate_of 30) funded_pool bob_ctx =
     Inr (funded_pool,
          \<lparr>uc_id = 0, uc_policy_id = 0, uc_owner = 1, uc_trigger_value = 25,
           uc_actual_value = 30, uc_decimal_places = 8, uc_payout_amount = 0,
           uc_processed_at = 0, uc_status = 2, uc_oracle_sources = 3\<rparr>,
          \<lparr>cp_claim_id = 0, cp_policy_id = 0, cp_owner = 1,
           cp_payout_amount = 0, cp_status = 2\<rparr>)"
  by (simp add: process_claim_with_aggregated_data_def get_policy_details_def
      get_aggregated_data_details_def get_trigger_operator_def drought_policy_def
      aggregate_of_def bob_ctx_def object_new_def as_u64_def MAX_U64_def Let_def)

text \<open>
  What a claim record says when one is produced, for a policy whose operator is one of
  the three of the specification.
\<close>

lemma claim_record_decision:
  assumes "process_claim_with_aggregated_data policy oracle_data pool ctx =
             Inr (pool', claim, event)"
    and "operator_of_code (pe_trigger_operator policy) = Some op"
  shows "pe_location policy = si_location oracle_data
       \<and> pe_peril_type policy = si_data_type oracle_data
       \<and> (uc_status claim = 1 \<longleftrightarrow>
            spec_trigger_met op (unat (si_value oracle_data))
              (unat (pe_trigger_threshold policy)))
       \<and> (uc_status claim = 1 \<or> uc_status claim = 2)
       \<and> uc_payout_amount claim = (if uc_status claim = 1 then pe_coverage_amount policy else 0)
       \<and> cp_status event = uc_status claim
       \<and> cp_payout_amount event = uc_payout_amount claim"
proof -
  from process_claim_with_aggregated_data_Inr [OF assms(1)]
  obtain w where pre: "pe_active policy" "pe_location policy = si_location oracle_data"
    "pe_peril_type policy = si_data_type oracle_data" "as_u64 (si_value oracle_data) = Inr w"
    by blast
  note te = trigger_expression [OF assms(2) as_u64_Inr [OF pre(4)],
      of "pe_trigger_threshold policy"]
  show ?thesis
    using assms(1) te pre(2,3)
    unfolding process_claim_with_aggregated_data_unfold [OF pre]
    by (auto simp: Let_def and_then_Inr_iff split: if_splits)
qed

text \<open>
  An active policy, a matching aggregate whose value fits \<open>u64\<close>, and a payout that
  returns whenever the trigger condition holds: the claim record is produced, Approved
  with the coverage amount when the condition holds and Rejected with 0 when it does not.
\<close>

lemma claim_record_produced:
  assumes "operator_of_code (pe_trigger_operator policy) = Some op"
    and "pe_active policy"
    and "pe_location policy = si_location oracle_data"
    and "pe_peril_type policy = si_data_type oracle_data"
    and "unat (si_value oracle_data) \<le> MAX_U64"
    and "spec_trigger_met op (unat (si_value oracle_data)) (unat (pe_trigger_threshold policy))
         \<longrightarrow> (\<exists>paid. process_claim_payout pool (pe_owner policy) (pe_coverage_amount policy)
                      = Inr paid)"
  shows "\<exists>pool' claim event.
           process_claim_with_aggregated_data policy oracle_data pool ctx
             = Inr (pool', claim, event)
         \<and> uc_status claim =
             (if spec_trigger_met op (unat (si_value oracle_data))
                   (unat (pe_trigger_threshold policy)) then 1 else 2)
         \<and> uc_payout_amount claim =
             (if spec_trigger_met op (unat (si_value oracle_data))
                   (unat (pe_trigger_threshold policy)) then pe_coverage_amount policy else 0)"
proof -
  obtain w where w: "as_u64 (si_value oracle_data) = Inr w"
    using as_u64_fits [OF assms(5)] by blast
  note te = trigger_expression [OF assms(1) as_u64_Inr [OF w], of "pe_trigger_threshold policy"]
  show ?thesis
    unfolding process_claim_with_aggregated_data_unfold [OF assms(2-4) w]
    using te assms(6) by (auto simp: Let_def)
qed

text \<open>
  C2. For a policy whose operator is one of the three of the specification. Whenever
  \<open>process_claim_with_aggregated_data\<close> produces a claim record, the location and the
  peril type of the aggregate match the policy's, the record has the status Approved (1)
  if and only if the operator's condition holds on the observed value and the threshold,
  and the status Rejected (2) otherwise; the recorded payout is the coverage amount when
  approved and 0 when rejected, and the event carries the same status and payout. And
  the record is produced, with exactly that status and payout, for every active policy
  and matching aggregate whose value fits \<open>u64\<close>, provided the payout of the coverage
  returns when the condition holds.
\<close>

theorem claim_approved_iff_trigger_met:
  assumes "operator_of_code (pe_trigger_operator policy) = Some op"
  shows "(process_claim_with_aggregated_data policy oracle_data pool ctx =
             Inr (pool', claim, event) \<longrightarrow>
           pe_location policy = si_location oracle_data
         \<and> pe_peril_type policy = si_data_type oracle_data
         \<and> (uc_status claim = 1 \<longleftrightarrow>
              spec_trigger_met op (unat (si_value oracle_data))
                (unat (pe_trigger_threshold policy)))
         \<and> (uc_status claim = 1 \<or> uc_status claim = 2)
         \<and> uc_payout_amount claim =
             (if uc_status claim = 1 then pe_coverage_amount policy else 0)
         \<and> cp_status event = uc_status claim
         \<and> cp_payout_amount event = uc_payout_amount claim)
       \<and> (pe_active policy
          \<and> pe_location policy = si_location oracle_data
          \<and> pe_peril_type policy = si_data_type oracle_data
          \<and> unat (si_value oracle_data) \<le> MAX_U64
          \<and> (spec_trigger_met op (unat (si_value oracle_data))
                 (unat (pe_trigger_threshold policy)) \<longrightarrow>
               (\<exists>paid. process_claim_payout pool (pe_owner policy)
                          (pe_coverage_amount policy) = Inr paid)) \<longrightarrow>
           (\<exists>pool'' claim' event'.
              process_claim_with_aggregated_data policy oracle_data pool ctx
                = Inr (pool'', claim', event')
            \<and> uc_status claim' =
                (if spec_trigger_met op (unat (si_value oracle_data))
                      (unat (pe_trigger_threshold policy)) then 1 else 2)
            \<and> uc_payout_amount claim' =
                (if spec_trigger_met op (unat (si_value oracle_data))
                      (unat (pe_trigger_threshold policy))
                 then pe_coverage_amount policy else 0)))"
proof (rule conjI; rule impI)
  assume "process_claim_with_aggregated_data policy oracle_data pool ctx =
             Inr (pool', claim, event)"
  then show "pe_location policy = si_location oracle_data
         \<and> pe_peril_type policy = si_data_type oracle_data
         \<and> (uc_status claim = 1 \<longleftrightarrow>
              spec_trigger_met op (unat (si_value oracle_data))
                (unat (pe_trigger_threshold policy)))
         \<and> (uc_status claim = 1 \<or> uc_status claim = 2)
         \<and> uc_payout_amount claim =
             (if uc_status claim = 1 then pe_coverage_amount policy else 0)
         \<and> cp_status event = uc_status claim
         \<and> cp_payout_amount event = uc_payout_amount claim"
    using assms by (rule claim_record_decision)
next
  assume a: "pe_active policy
          \<and> pe_location policy = si_location oracle_data
          \<and> pe_peril_type policy = si_data_type oracle_data
          \<and> unat (si_value oracle_data) \<le> MAX_U64
          \<and> (spec_trigger_met op (unat (si_value oracle_data))
                 (unat (pe_trigger_threshold policy)) \<longrightarrow>
               (\<exists>paid. process_claim_payout pool (pe_owner policy)
                          (pe_coverage_amount policy) = Inr paid))"
  show "\<exists>pool'' claim' event'.
              process_claim_with_aggregated_data policy oracle_data pool ctx
                = Inr (pool'', claim', event')
            \<and> uc_status claim' =
                (if spec_trigger_met op (unat (si_value oracle_data))
                      (unat (pe_trigger_threshold policy)) then 1 else 2)
            \<and> uc_payout_amount claim' =
                (if spec_trigger_met op (unat (si_value oracle_data))
                      (unat (pe_trigger_threshold policy))
                 then pe_coverage_amount policy else 0)"
    using claim_record_produced [OF assms, of oracle_data pool ctx] a by blast
qed

text \<open>
  Each operator, once met and once not, on a pool that can pay: \<open>LESS_THAN\<close> 25 with
  the values 20 and 30 (Scenarios B and C), \<open>GREATER_THAN\<close> 25 with 30 and 20, and
  \<open>EQUAL_WITHIN_TOLERANCE\<close> around 2500, tolerance 25, with 2520 and 2530.
\<close>

theorem claim_approved_iff_trigger_met_witness:
  "(\<exists>pool' claim event.
        process_claim_with_aggregated_data drought_policy (aggregate_of 20) funded_pool bob_ctx
          = Inr (pool', claim, event)
        \<and> spec_trigger_met LESS_THAN 20 25
        \<and> uc_status claim = 1 \<and> uc_payout_amount claim = 10000)
   \<and> (\<exists>pool' claim event.
        process_claim_with_aggregated_data drought_policy (aggregate_of 30) funded_pool bob_ctx
          = Inr (pool', claim, event)
        \<and> \<not> spec_trigger_met LESS_THAN 30 25
        \<and> uc_status claim = 2 \<and> uc_payout_amount claim = 0)
   \<and> (\<exists>pool' claim event.
        process_claim_with_aggregated_data heat_policy (aggregate_of 30) funded_pool bob_ctx
          = Inr (pool', claim, event)
        \<and> spec_trigger_met GREATER_THAN 30 25
        \<and> uc_status claim = 1 \<and> uc_payout_amount claim = 10000)
   \<and> (\<exists>pool' claim event.
        process_claim_with_aggregated_data heat_policy (aggregate_of 20) funded_pool bob_ctx
          = Inr (pool', claim, event)
        \<and> \<not> spec_trigger_met GREATER_THAN 20 25
        \<and> uc_status claim = 2 \<and> uc_payout_amount claim = 0)
   \<and> (\<exists>pool' claim event.
        process_claim_with_aggregated_data band_policy (aggregate_of 2520) funded_pool bob_ctx
          = Inr (pool', claim, event)
        \<and> spec_trigger_met EQUAL_WITHIN_TOLERANCE 2520 2500
        \<and> uc_status claim = 1 \<and> uc_payout_amount claim = 10000)
   \<and> (\<exists>pool' claim event.
        process_claim_with_aggregated_data band_policy (aggregate_of 2530) funded_pool bob_ctx
          = Inr (pool', claim, event)
        \<and> \<not> spec_trigger_met EQUAL_WITHIN_TOLERANCE 2530 2500
        \<and> uc_status claim = 2 \<and> uc_payout_amount claim = 0)"
proof -
  have paid: "\<exists>paid. process_claim_payout funded_pool 1 10000 = Inr paid"
    by (simp add: process_claim_payout_def funded_pool_def)
  have ops: "operator_of_code (pe_trigger_operator drought_policy) = Some LESS_THAN"
    "operator_of_code (pe_trigger_operator heat_policy) = Some GREATER_THAN"
    "operator_of_code (pe_trigger_operator band_policy) = Some EQUAL_WITHIN_TOLERANCE"
    by (simp_all add: operator_of_code_def drought_policy_def heat_policy_def band_policy_def)
  have fields: "pe_active drought_policy" "pe_active heat_policy" "pe_active band_policy"
    "pe_owner drought_policy = 1" "pe_owner heat_policy = 1" "pe_owner band_policy = 1"
    "pe_coverage_amount drought_policy = 10000" "pe_coverage_amount heat_policy = 10000"
    "pe_coverage_amount band_policy = 10000"
    "unat (pe_trigger_threshold drought_policy) = 25"
    "unat (pe_trigger_threshold heat_policy) = 25"
    "unat (pe_trigger_threshold band_policy) = 2500"
    "pe_location drought_policy = ''east-africa''" "pe_location heat_policy = ''east-africa''"
    "pe_location band_policy = ''east-africa''"
    "pe_peril_type drought_policy = ''rainfall''" "pe_peril_type heat_policy = ''rainfall''"
    "pe_peril_type band_policy = ''rainfall''"
    by (simp_all add: drought_policy_def heat_policy_def band_policy_def)
  have agg: "si_location (aggregate_of v) = ''east-africa''"
    "si_data_type (aggregate_of v) = ''rainfall''" "si_value (aggregate_of v) = v" for v
    by (simp_all add: aggregate_of_def)
  have met: "spec_trigger_met LESS_THAN 20 25" "\<not> spec_trigger_met LESS_THAN 30 25"
    "spec_trigger_met GREATER_THAN 30 25" "\<not> spec_trigger_met GREATER_THAN 20 25"
    "spec_trigger_met EQUAL_WITHIN_TOLERANCE 2520 2500"
    "\<not> spec_trigger_met EQUAL_WITHIN_TOLERANCE 2530 2500"
    by simp_all
  have c1: "(\<exists>pool' claim event.
        process_claim_with_aggregated_data drought_policy (aggregate_of 20) funded_pool bob_ctx
          = Inr (pool', claim, event)
        \<and> spec_trigger_met LESS_THAN 20 25
        \<and> uc_status claim = 1 \<and> uc_payout_amount claim = 10000)"
    using claim_approved_iff_trigger_met [OF ops(1), THEN conjunct2,
        of "aggregate_of 20" funded_pool bob_ctx] paid
    by (simp add: fields agg met MAX_U64_def)
  have c2: "(\<exists>pool' claim event.
        process_claim_with_aggregated_data drought_policy (aggregate_of 30) funded_pool bob_ctx
          = Inr (pool', claim, event)
        \<and> \<not> spec_trigger_met LESS_THAN 30 25
        \<and> uc_status claim = 2 \<and> uc_payout_amount claim = 0)"
    using claim_approved_iff_trigger_met [OF ops(1), THEN conjunct2,
        of "aggregate_of 30" funded_pool bob_ctx] paid
    by (simp add: fields agg met MAX_U64_def)
  have c3: "(\<exists>pool' claim event.
        process_claim_with_aggregated_data heat_policy (aggregate_of 30) funded_pool bob_ctx
          = Inr (pool', claim, event)
        \<and> spec_trigger_met GREATER_THAN 30 25
        \<and> uc_status claim = 1 \<and> uc_payout_amount claim = 10000)"
    using claim_approved_iff_trigger_met [OF ops(2), THEN conjunct2,
        of "aggregate_of 30" funded_pool bob_ctx] paid
    by (simp add: fields agg met MAX_U64_def)
  have c4: "(\<exists>pool' claim event.
        process_claim_with_aggregated_data heat_policy (aggregate_of 20) funded_pool bob_ctx
          = Inr (pool', claim, event)
        \<and> \<not> spec_trigger_met GREATER_THAN 20 25
        \<and> uc_status claim = 2 \<and> uc_payout_amount claim = 0)"
    using claim_approved_iff_trigger_met [OF ops(2), THEN conjunct2,
        of "aggregate_of 20" funded_pool bob_ctx] paid
    by (simp add: fields agg met MAX_U64_def)
  have c5: "(\<exists>pool' claim event.
        process_claim_with_aggregated_data band_policy (aggregate_of 2520) funded_pool bob_ctx
          = Inr (pool', claim, event)
        \<and> spec_trigger_met EQUAL_WITHIN_TOLERANCE 2520 2500
        \<and> uc_status claim = 1 \<and> uc_payout_amount claim = 10000)"
    using claim_approved_iff_trigger_met [OF ops(3), THEN conjunct2,
        of "aggregate_of 2520" funded_pool bob_ctx] paid
    by (simp add: fields agg met MAX_U64_def)
  have c6: "(\<exists>pool' claim event.
        process_claim_with_aggregated_data band_policy (aggregate_of 2530) funded_pool bob_ctx
          = Inr (pool', claim, event)
        \<and> \<not> spec_trigger_met EQUAL_WITHIN_TOLERANCE 2530 2500
        \<and> uc_status claim = 2 \<and> uc_payout_amount claim = 0)"
    using claim_approved_iff_trigger_met [OF ops(3), THEN conjunct2,
        of "aggregate_of 2530" funded_pool bob_ctx] paid
    by (simp add: fields agg met MAX_U64_def)
  show ?thesis
    using c1 c2 c3 c4 c5 c6 by blast
qed

text \<open>
  The simplified \<open>claim_processor::process_claim\<close> works on policies without an
  operator and always applies the comparison of \<open>LESS_THAN\<close>.
\<close>

lemma process_claim_decision:
  assumes "process_claim policy oracle_data pool ctx = Inr (pool', claim, event)"
  shows "(cl_status claim = 1 \<longleftrightarrow>
            spec_trigger_met LESS_THAN (unat (oa_value oracle_data))
              (unat (pm_trigger_threshold policy)))
       \<and> (cl_status claim = 1 \<or> cl_status claim = 2)
       \<and> cl_payout_amount claim = (if cl_status claim = 1 then pm_coverage_amount policy else 0)"
  using assms
  by (auto simp: process_claim_def Let_def and_then_Inr_iff word_le_nat_alt split: if_splits)

text \<open>
  A policy whose operator code is none of 0, 1 and 2 never meets its trigger: every claim
  record for it is Rejected with the payout 0.
\<close>

lemma unknown_operator_rejected:
  assumes "process_claim_with_aggregated_data policy oracle_data pool ctx =
             Inr (pool', claim, event)"
    and "operator_of_code (pe_trigger_operator policy) = None"
  shows "uc_status claim = 2 \<and> uc_payout_amount claim = 0 \<and> pool' = pool"
proof -
  from process_claim_with_aggregated_data_Inr [OF assms(1)]
  obtain w where pre: "pe_active policy" "pe_location policy = si_location oracle_data"
    "pe_peril_type policy = si_data_type oracle_data" "as_u64 (si_value oracle_data) = Inr w"
    by blast
  have "pe_trigger_operator policy \<noteq> 0" "pe_trigger_operator policy \<noteq> 1"
    "pe_trigger_operator policy \<noteq> 2"
    using assms(2) by (auto simp: operator_of_code_def split: if_splits)
  then show ?thesis
    using assms(1) unfolding process_claim_with_aggregated_data_unfold [OF pre]
    by (auto simp: Let_def)
qed

text \<open>
  C1. An active policy, a matching aggregate whose observed value meets the trigger
  condition, and a pool whose \<open>total_liquidity\<close> is below the coverage amount, which
  is the payout: \<open>process_claim_with_aggregated_data\<close> fails with
  \<open>InsufficientLiquidity\<close>, and the transaction leaves the ledger as it was: the same
  policy, the same pool with its \<open>total_liquidity\<close>, no claim record and no event added.
\<close>

theorem claim_fails_atomically_on_insufficient_liquidity:
  assumes "pe_active policy"
    and "pe_location policy = si_location oracle_data"
    and "pe_peril_type policy = si_data_type oracle_data"
    and "unat (si_value oracle_data) \<le> MAX_U64"
    and "operator_of_code (pe_trigger_operator policy) = Some op"
    and "spec_trigger_met op (unat (si_value oracle_data)) (unat (pe_trigger_threshold policy))"
    and "unat (total_liquidity pool) < unat (pe_coverage_amount policy)"
  shows "process_claim_with_aggregated_data policy oracle_data pool ctx
           = Inl InsufficientLiquidity
       \<and> submit_claim oracle_data ctx
            \<lparr>ledger_policy = policy, ledger_pool = pool,
             ledger_claims = claims, ledger_events = events\<rparr>
          = (Some InsufficientLiquidity,
             \<lparr>ledger_policy = policy, ledger_pool = pool,
              ledger_claims = claims, ledger_events = events\<rparr>)"
proof -
  obtain w where w: "as_u64 (si_value oracle_data) = Inr w"
    using as_u64_fits [OF assms(4)] by blast
  note te = trigger_expression [OF assms(5) as_u64_Inr [OF w], of "pe_trigger_threshold policy"]
  have "process_claim_with_aggregated_data policy oracle_data pool ctx
      = Inl InsufficientLiquidity"
    unfolding process_claim_with_aggregated_data_unfold [OF assms(1-3) w]
    using te assms(6,7) by (simp add: Let_def process_claim_payout_def)
  then show ?thesis by (simp add: submit_claim_def)
qed

text \<open>
  Scenario D: the pool holds 5000 and the approved claim asks for 10000.
\<close>

theorem claim_fails_atomically_on_insufficient_liquidity_witness:
  "pe_active drought_policy
   \<and> pe_location drought_policy = si_location (aggregate_of 20)
   \<and> pe_peril_type drought_policy = si_data_type (aggregate_of 20)
   \<and> unat (si_value (aggregate_of 20)) \<le> MAX_U64
   \<and> operator_of_code (pe_trigger_operator drought_policy) = Some LESS_THAN
   \<and> spec_trigger_met LESS_THAN (unat (si_value (aggregate_of 20)))
        (unat (pe_trigger_threshold drought_policy))
   \<and> unat (total_liquidity small_pool) < unat (pe_coverage_amount drought_policy)
   \<and> process_claim_with_aggregated_data drought_policy (aggregate_of 20) small_pool bob_ctx
        = Inl InsufficientLiquidity
   \<and> submit_claim (aggregate_of 20) bob_ctx small_ledger
        = (Some InsufficientLiquidity, small_ledger)"
proof -
  have h: "pe_active drought_policy"
    "pe_location drought_policy = si_location (aggregate_of 20)"
    "pe_peril_type drought_policy = si_data_type (aggregate_of 20)"
    "unat (si_value (aggregate_of 20)) \<le> MAX_U64"
    "operator_of_code (pe_trigger_operator drought_policy) = Some LESS_THAN"
    "spec_trigger_met LESS_THAN (unat (si_value (aggregate_of 20)))
        (unat (pe_trigger_threshold drought_policy))"
    "unat (total_liquidity small_pool) < unat (pe_coverage_amount drought_policy)"
    by (simp_all add: drought_policy_def aggregate_of_def small_pool_def MAX_U64_def
        operator_of_code_def)
  note t = claim_fails_atomically_on_insufficient_liquidity [OF h, of bob_ctx "[]" "[]"]
  show ?thesis
    using h t unfolding small_ledger_def by blast
qed

text \<open>
  The two processors of \<open>claim_processor_updated\<close> refuse a policy that is not active.
\<close>

lemma process_claim_with_aggregated_data_inactive:
  "\<not> pe_active policy \<Longrightarrow>
     process_claim_with_aggregated_data policy oracle_data pool ctx = Inl PolicyInactive"
  by (simp add: process_claim_with_aggregated_data_def get_policy_details_def)

lemma process_claim_with_aggregator_inactive:
  "\<not> pe_active policy \<Longrightarrow>
     process_claim_with_aggregator policy oracle_value decimal_places pool ctx
       = Inl PolicyInactive"
  by (simp add: process_claim_with_aggregator_def get_policy_details_def)

text \<open>
  C3. \<open>claim_processor::process_claim\<close> on a policy that its owner has terminated:
  the policy is not active, yet the call does not fail. With the aggregate value 30,
  above the threshold 25, it returns a Rejected claim record and the event.
\<close>

theorem process_claim_accepts_terminated_policy:
  "terminate_policy rainfall_policy alice_ctx = Inr terminated_policy
   \<and> \<not> pm_active terminated_policy
   \<and> process_claim terminated_policy (reading_of 30) funded_pool bob_ctx =
       Inr (funded_pool,
            \<lparr>cl_id = 0, cl_policy_id = 0, cl_owner = 1, cl_trigger_value = 25,
             cl_actual_value = 30, cl_payout_amount = 0, cl_processed_at = 0,
             cl_status = 2\<rparr>,
            \<lparr>cp_claim_id = 0, cp_policy_id = 0, cp_owner = 1,
             cp_payout_amount = 0, cp_status = 2\<rparr>)"
  by (simp add: process_claim_def terminate_policy_def terminated_policy_def
      rainfall_policy_def create_policy_def reading_of_def alice_ctx_def bob_ctx_def
      object_new_def Let_def)

text \<open>
  With the value 20 the claim on the terminated policy is approved, and the pool pays the
  coverage of 10000 to its owner.
\<close>

lemma process_claim_pays_terminated_policy:
  "process_claim terminated_policy (reading_of 20) funded_pool bob_ctx =
     Inr (funded_pool\<lparr>total_liquidity := 40000\<rparr>,
          \<lparr>cl_id = 0, cl_policy_id = 0, cl_owner = 1, cl_trigger_value = 25,
           cl_actual_value = 20, cl_payout_amount = 10000, cl_processed_at = 0,
           cl_status = 1\<rparr>,
          \<lparr>cp_claim_id = 0, cp_policy_id = 0, cp_owner = 1,
           cp_payout_amount = 10000, cp_status = 1\<rparr>)"
  by (simp add: process_claim_def terminated_policy_def rainfall_policy_def
      create_policy_def reading_of_def alice_ctx_def bob_ctx_def object_new_def Let_def
      process_claim_payout_def funded_pool_def)

section \<open>Oracle aggregation\<close>

text \<open>
  One pass of the inner loop keeps the length and the elements of the vector, leaves the
  positions from \<open>n - i\<close> on untouched and moves a greatest element of the first
  \<open>n - i\<close> positions to the position \<open>n - i - 1\<close>. The outer loop therefore sorts
  the vector, and the result is the sorted list of the values.
\<close>

lemma bubble_inner_inv:
  "n \<le> length xs \<Longrightarrow> j \<le> n - i - 1 \<Longrightarrow> \<forall>k<j. xs ! k \<le> xs ! j \<Longrightarrow>
     length (bubble_inner xs n i j) = length xs
     \<and> mset (bubble_inner xs n i j) = mset xs
     \<and> (\<forall>k. n - i \<le> k \<longrightarrow> bubble_inner xs n i j ! k = xs ! k)
     \<and> (\<forall>k<n - i - 1. bubble_inner xs n i j ! k \<le> bubble_inner xs n i j ! (n - i - 1))"
proof (induction xs n i j rule: bubble_inner.induct)
  case (1 "values" n i j)
  show ?case
  proof (cases "j < n - i - 1")
    case False
    then have stop: "bubble_inner values n i j = values"
      by (simp add: bubble_inner.simps [of "values" n i j])
    have "j = n - i - 1" using False "1.prems"(2) by simp
    then show ?thesis using "1.prems"(3) unfolding stop by simp
  next
    case True
    define next_values where "next_values =
      (if values ! j > values ! (j + 1)
       then (let temp = values ! j in values[j := values ! (j + 1), j + 1 := temp])
       else values)"
    have unfold: "bubble_inner values n i j = bubble_inner next_values n i (j + 1)"
      using True by (simp add: bubble_inner.simps [of "values" n i j] next_values_def)
    have in_range: "j < length values" "j + 1 < length values"
      using True "1.prems"(1) by simp_all
    have len: "length next_values = length values"
      by (simp add: next_values_def Let_def)
    have ms: "mset next_values = mset values"
      using in_range mset_swap [of "j + 1" "values" j]
      by (simp add: next_values_def Let_def)
    have above: "next_values ! k = values ! k" if "n - i \<le> k" for k
      using that True by (simp add: next_values_def Let_def)
    have prefix: "\<forall>k<j + 1. next_values ! k \<le> next_values ! (j + 1)"
    proof (intro allI impI)
      fix k assume k: "k < j + 1"
      show "next_values ! k \<le> next_values ! (j + 1)"
      proof (cases "values ! j > values ! (j + 1)")
        case swap: True
        then have nv: "next_values = values[j := values ! (j + 1), j + 1 := values ! j]"
          by (simp add: next_values_def Let_def)
        show ?thesis
        proof (cases "k = j")
          case True
          then show ?thesis using swap in_range by (simp add: nv)
        next
          case False
          then have "k < j" using k by simp
          then show ?thesis using "1.prems"(3) in_range by (simp add: nv)
        qed
      next
        case keep: False
        then have nv: "next_values = values" by (simp add: next_values_def)
        have "values ! k \<le> values ! j"
          using k "1.prems"(3) by (cases "k = j") auto
        then show ?thesis using keep nv by auto
      qed
    qed
    have "length (bubble_inner next_values n i (j + 1)) = length next_values
     \<and> mset (bubble_inner next_values n i (j + 1)) = mset next_values
     \<and> (\<forall>k. n - i \<le> k \<longrightarrow> bubble_inner next_values n i (j + 1) ! k = next_values ! k)
     \<and> (\<forall>k<n - i - 1. bubble_inner next_values n i (j + 1) ! k
            \<le> bubble_inner next_values n i (j + 1) ! (n - i - 1))"
      using "1.IH" [OF True] "1.prems"(1) True len prefix
      unfolding next_values_def by simp
    then show ?thesis using unfold len ms above by simp
  qed
qed


lemma bubble_outer_inv:
  "n = length xs \<Longrightarrow> i \<le> n \<Longrightarrow> sorted (drop (n - i) xs) \<Longrightarrow>
   \<forall>a\<in>set (take (n - i) xs). \<forall>b\<in>set (drop (n - i) xs). a \<le> b \<Longrightarrow>
     sorted (bubble_outer xs n i) \<and> mset (bubble_outer xs n i) = mset xs"
proof (induction xs n i rule: bubble_outer.induct)
  case (1 "values" n i)
  show ?case
  proof (cases "i < n")
    case False
    then have stop: "bubble_outer values n i = values"
      by (simp add: bubble_outer.simps [of "values" n i])
    have "n - i = 0" using False by simp
    then show ?thesis using "1.prems"(3) unfolding stop by simp
  next
    case True
    define ys where "ys = bubble_inner values n i 0"
    define m where "m = n - i"
    have m: "0 < m" "m \<le> length values" "n - (i + 1) = m - 1" "n - i - 1 = m - 1"
      using True "1.prems"(1) by (simp_all add: m_def)
    have unfold: "bubble_outer values n i = bubble_outer ys n (i + 1)"
      using True by (simp add: bubble_outer.simps [of "values" n i] ys_def)
    have inner: "length ys = length values" "mset ys = mset values"
      "\<And>k. m \<le> k \<Longrightarrow> ys ! k = values ! k"
      "\<And>k. k < m - 1 \<Longrightarrow> ys ! k \<le> ys ! (m - 1)"
      using bubble_inner_inv [of n "values" 0 i] "1.prems"(1)
      unfolding ys_def m_def by simp_all
    have dropm: "drop m ys = drop m values"
      by (rule nth_equalityI) (simp_all add: inner(1,3))
    have "mset (take m ys) + mset (drop m ys) = mset (take m values) + mset (drop m values)"
      using inner(2) by (metis append_take_drop_id mset_append)
    then have "mset (take m ys) = mset (take m values)"
      using dropm by simp
    then have takem: "set (take m ys) = set (take m values)"
      by (rule mset_eq_setD)
    have below: "\<forall>a\<in>set (take m ys). \<forall>b\<in>set (drop m ys). a \<le> b"
      using "1.prems"(4) takem dropm unfolding m_def by simp
    have last_in: "ys ! (m - 1) \<in> set (take m ys)"
      using m inner(1) by (auto simp: in_set_conv_nth intro!: exI [of _ "m - 1"])
    have split: "drop (m - 1) ys = ys ! (m - 1) # drop m ys"
      using m inner(1) Cons_nth_drop_Suc [of "m - 1" ys] by simp
    have sorted_next: "sorted (drop (m - 1) ys)"
      using split below last_in "1.prems"(3) dropm unfolding m_def by simp
    have below_next: "\<forall>a\<in>set (take (m - 1) ys). \<forall>b\<in>set (drop (m - 1) ys). a \<le> b"
    proof (intro ballI)
      fix a b assume a: "a \<in> set (take (m - 1) ys)" and b: "b \<in> set (drop (m - 1) ys)"
      from a obtain k where k: "k < m - 1" "a = ys ! k"
        by (auto simp: in_set_conv_nth)
      have "a \<in> set (take m ys)"
        using a set_take_subset_set_take [of "m - 1" m ys] by auto
      then show "a \<le> b"
        using b k inner(4) below unfolding split by auto
    qed
    have "sorted (bubble_outer ys n (i + 1)) \<and> mset (bubble_outer ys n (i + 1)) = mset ys"
      using "1.IH" [OF True] "1.prems"(1) True inner(1) sorted_next below_next m(3)
      unfolding ys_def by simp
    then show ?thesis using unfold inner(2) by simp
  qed
qed

lemma bubble_outer_sort: "bubble_outer xs (length xs) 0 = sort xs"
proof -
  have "sorted (bubble_outer xs (length xs) 0) \<and> mset (bubble_outer xs (length xs) 0) = mset xs"
    by (rule bubble_outer_inv) simp_all
  then show ?thesis
    using properties_for_sort [of "bubble_outer xs (length xs) 0" xs] by simp
qed

lemma map_unat_sort: "map unat (sort (xs :: u64 list)) = sort (map unat xs)"
proof -
  have "sorted (map unat (sort xs))"
    by (simp add: sorted_map word_le_nat_alt [symmetric])
  moreover have "mset (map unat (sort xs)) = mset (map unat xs)"
    by simp
  ultimately show ?thesis
    using properties_for_sort [of "map unat (sort xs)" "map unat xs"] by simp
qed

lemma median_value_spec:
  assumes "median_value (sort xs) = Inr v" and "xs \<noteq> []"
  shows "unat v = spec_median (map unat xs)"
proof -
  let ?n = "length xs"
  have n: "0 < ?n" using assms(2) by simp
  have nth: "sort (map unat xs) ! k = unat (sort xs ! k)" if "k < ?n" for k
    using that by (simp add: map_unat_sort [symmetric])
  show ?thesis
  proof (cases "even ?n")
    case True
    have "?n div 2 < ?n" using n by simp
    then have "?n div 2 - 1 < ?n" "?n div 2 < ?n" by arith+
    then show ?thesis
      using assms(1) True nth
      by (auto simp: median_value_def spec_median_def Let_def and_then_Inr_iff
          even_iff_mod_2_eq_zero dest!: add_u64_Inr div_u64_Inr)
  next
    case False
    then have "?n div 2 < ?n" using n by auto
    then show ?thesis
      using assms(1) False nth
      by (auto simp: median_value_def spec_median_def Let_def even_iff_mod_2_eq_zero)
  qed
qed

lemma sum_values_Inr:
  "sum_values vs i acc = Inr s \<Longrightarrow> unat s = unat acc + sum_list (map unat (drop i vs))"
proof (induction vs i acc rule: sum_values.induct)
  case (1 "values" i acc)
  show ?case
  proof (cases "i < length values")
    case False
    then show ?thesis using "1.prems" by (simp add: sum_values.simps [of "values" i acc])
  next
    case True
    then obtain acc' where a: "add_u64 acc (values ! i) = Inr acc'"
      and r: "sum_values values (Suc i) acc' = Inr s"
      using "1.prems" by (auto simp: sum_values.simps [of "values" i acc] and_then_Inr_iff)
    have "drop i values = values ! i # drop (Suc i) values"
      using True by (simp add: Cons_nth_drop_Suc)
    then show ?thesis
      using "1.IH" [OF True r] add_u64_Inr [OF a] by simp
  qed
qed


lemma switchboard_oracle_aggregate_data_Inr:
  assumes "switchboard_oracle_aggregate_data registry location data_type feed_ids feed_values
       feed_timestamps ctx = Inr agg"
  shows "feed_values \<noteq> [] \<and> median_value (sort feed_values) = Inr (sb_value agg)"
  using assms
  by (auto simp: switchboard_oracle_aggregate_data_def Let_def and_then_Inr_iff
      bubble_outer_sort)

lemma verify_three_feeds:
  "verify_feeds rainfall_registry [11, 12, 13] ''rainfall'' ''east-africa'' 0 = Inr ()"
  by (simp add: verify_feeds.simps rainfall_registry_def)

lemma verify_four_feeds:
  "verify_feeds rainfall_registry [11, 12, 13, 14] ''rainfall'' ''east-africa'' 0 = Inr ()"
  by (simp add: verify_feeds.simps rainfall_registry_def)

lemma sort_readings:
  "sort [30, 10, 20 :: u64] = [10, 20, 30]"
  "sort [40, 10, 20, 30 :: u64] = [10, 20, 30, 40]"
  by simp_all

lemma median_of_three: "median_value [10, 20, 30] = Inr 20"
  by (simp add: median_value_def)

lemma median_of_four: "median_value [10, 20, 30, 40] = Inr 25"
  by (simp add: median_value_def add_u64_def div_u64_def MAX_U64_def)

lemma total_deviation_of_three: "total_deviation [10, 20, 30] 20 0 0 = Inr 20"
  by (simp add: total_deviation.simps add_u64_def MAX_U64_def Let_def)

lemma total_deviation_of_four: "total_deviation [10, 20, 30, 40] 25 0 0 = Inr 40"
  by (simp add: total_deviation.simps add_u64_def MAX_U64_def Let_def)

lemma confidence_of_three: "calculate_confidence [10, 20, 30] 20 = Inr 7000"
  by (simp add: calculate_confidence_def Let_def total_deviation_of_three div_u64_def
      mul_u64_def sub_u64_def MAX_U64_def)

lemma confidence_of_four: "calculate_confidence [10, 20, 30, 40] 25 = Inr 6000"
  by (simp add: calculate_confidence_def Let_def total_deviation_of_four div_u64_def
      mul_u64_def sub_u64_def MAX_U64_def)

lemma aggregate_three_feeds:
  "switchboard_oracle_aggregate_data rainfall_registry ''east-africa'' ''rainfall''
     [11, 12, 13] [30, 10, 20] [5, 5, 5] alice_ctx =
   Inr \<lparr>sb_id = 0, sb_location = ''east-africa'', sb_data_type = ''rainfall'', sb_value = 20,
        sb_timestamp = 0, sb_confidence = 7000, sb_num_sources = 3,
        sb_sources = [11, 12, 13]\<rparr>"
  unfolding switchboard_oracle_aggregate_data_def Let_def bubble_outer_sort sort_readings
  by (simp add: verify_three_feeds median_of_three confidence_of_three alice_ctx_def
      object_new_def)

lemma aggregate_four_feeds:
  "switchboard_oracle_aggregate_data rainfall_registry ''east-africa'' ''rainfall''
     [11, 12, 13, 14] [40, 10, 20, 30] [5, 5, 5, 5] alice_ctx =
   Inr \<lparr>sb_id = 0, sb_location = ''east-africa'', sb_data_type = ''rainfall'', sb_value = 25,
        sb_timestamp = 0, sb_confidence = 6000, sb_num_sources = 4,
        sb_sources = [11, 12, 13, 14]\<rparr>"
  unfolding switchboard_oracle_aggregate_data_def Let_def bubble_outer_sort sort_readings
  by (simp add: verify_four_feeds median_of_four confidence_of_four alice_ctx_def
      object_new_def)

lemma average_of_1_2_9:
  "oracle_aggregator_aggregate_data ''east-africa'' ''rainfall'' [1, 2, 9] [7, 8, 9] alice_ctx
     = Inr \<lparr>oa_id = 0, oa_location = ''east-africa'', oa_data_type = ''rainfall'',
            oa_value = 4, oa_timestamp = 0, oa_sources_count = 3\<rparr>"
  by (simp add: oracle_aggregator_aggregate_data_def Let_def sum_values.simps add_u64_def
      MAX_U64_def div_u64_def alice_ctx_def object_new_def)

text \<open>
  C6, as amended. Whenever \<open>switchboard_oracle::aggregate_data\<close> produces an aggregate,
  the batch is not empty and the aggregate value is the median of the batch's values:
  with the values sorted, the middle value when the count is odd, and the average of the
  two middle values with integer division, rounding down, when the count is even. The
  simplified \<open>oracle_aggregator::aggregate_data\<close> produces the mean of the values with
  integer division instead.
\<close>

theorem aggregate_value_is_median:
  "(switchboard_oracle_aggregate_data registry location data_type feed_ids feed_values
       feed_timestamps ctx = Inr agg \<longrightarrow>
      feed_values \<noteq> [] \<and> unat (sb_value agg) = spec_median (map unat feed_values))
   \<and> (oracle_aggregator_aggregate_data location' data_type' vs sources ctx' = Inr agg'
        \<and> length vs \<le> MAX_U64 \<longrightarrow>
      vs \<noteq> [] \<and> unat (oa_value agg') = spec_mean (map unat vs))"
proof (rule conjI; rule impI)
  assume a: "switchboard_oracle_aggregate_data registry location data_type feed_ids feed_values
       feed_timestamps ctx = Inr agg"
  show "feed_values \<noteq> [] \<and> unat (sb_value agg) = spec_median (map unat feed_values)"
    using switchboard_oracle_aggregate_data_Inr [OF a]
      median_value_spec [of feed_values "sb_value agg"] by simp
next
  assume a: "oracle_aggregator_aggregate_data location' data_type' vs sources ctx' = Inr agg'
        \<and> length vs \<le> MAX_U64"
  then obtain s where s: "sum_values vs 0 0 = Inr s" and ne: "vs \<noteq> []"
    and d: "div_u64 s (of_nat (length vs)) = Inr (oa_value agg')"
    by (auto simp: oracle_aggregator_aggregate_data_def Let_def and_then_Inr_iff)
  have "unat s = sum_list (map unat vs)"
    using sum_values_Inr [OF s] by simp
  then show "vs \<noteq> [] \<and> unat (oa_value agg') = spec_mean (map unat vs)"
    using div_u64_Inr [OF d] a ne by (simp add: spec_mean_def unat_of_nat_u64)
qed

text \<open>
  The readings 30, 10, 20 have the median 20; the readings 40, 10, 20, 30 have the median
  \<open>(20 + 30) / 2 = 25\<close>; the mean of 1, 2, 9 is 4.
\<close>

theorem aggregate_value_is_median_witness:
  "(\<exists>agg. switchboard_oracle_aggregate_data rainfall_registry ''east-africa'' ''rainfall''
             [11, 12, 13] [30, 10, 20] [5, 5, 5] alice_ctx = Inr agg
          \<and> unat (sb_value agg) = spec_median (map unat [30, 10, 20 :: u64])
          \<and> sb_value agg = 20)
   \<and> (\<exists>agg. switchboard_oracle_aggregate_data rainfall_registry ''east-africa'' ''rainfall''
             [11, 12, 13, 14] [40, 10, 20, 30] [5, 5, 5, 5] alice_ctx = Inr agg
          \<and> unat (sb_value agg) = spec_median (map unat [40, 10, 20, 30 :: u64])
          \<and> sb_value agg = 25)
   \<and> (\<exists>agg. oracle_aggregator_aggregate_data ''east-africa'' ''rainfall'' [1, 2, 9] [7, 8, 9]
             alice_ctx = Inr agg
          \<and> length [1, 2, 9 :: u64] \<le> MAX_U64
          \<and> unat (oa_value agg) = spec_mean (map unat [1, 2, 9 :: u64])
          \<and> oa_value agg = 4)"
proof -
  have len: "length [1, 2, 9 :: u64] \<le> MAX_U64" by (simp add: MAX_U64_def)
  note three = aggregate_value_is_median [THEN conjunct1, rule_format, OF aggregate_three_feeds]
  note four = aggregate_value_is_median [THEN conjunct1, rule_format, OF aggregate_four_feeds]
  note mean = aggregate_value_is_median [THEN conjunct2, rule_format,
      OF conjI [OF average_of_1_2_9 len]]
  show ?thesis
    using three four mean len
    by (simp add: aggregate_three_feeds aggregate_four_feeds average_of_1_2_9)
qed

text \<open>
  The readings 1, 2, 9: \<open>oracle_aggregator::aggregate_data\<close> produces the value 4, and
  the median is 2.
\<close>

theorem aggregate_value_is_median_counterexample:
  "oracle_aggregator_aggregate_data ''east-africa'' ''rainfall'' [1, 2, 9] [7, 8, 9] alice_ctx
     = Inr \<lparr>oa_id = 0, oa_location = ''east-africa'', oa_data_type = ''rainfall'',
            oa_value = 4, oa_timestamp = 0, oa_sources_count = 3\<rparr>
   \<and> spec_median (map unat [1, 2, 9 :: u64]) = 2
   \<and> unat (4 :: u64) \<noteq> spec_median (map unat [1, 2, 9 :: u64])"
  by (simp add: average_of_1_2_9 spec_median_def)

section \<open>The collateral of a policy\<close>

lemma create_policy_enhanced_collateralized:
  assumes "create_policy_enhanced registry risk_params location coordinates peril_type
      peril_details coverage_amount trigger_threshold trigger_operator collateral ctx
        = Inr (registry', policy)"
  shows "collateralized policy"
  using assms
  by (auto simp: create_policy_enhanced_def Let_def and_then_Inr_iff collateralized_def)

lemma add_collateral_collateralized:
  assumes "collateralized policy" and "add_collateral policy coin ctx = Inr policy'"
  shows "collateralized policy'"
  using assms
  by (auto simp: add_collateral_def and_then_Inr_iff collateralized_def word_le_nat_alt
      dest!: add_u64_Inr)

lemma remove_collateral_collateralized:
  assumes "remove_collateral policy amount ctx = Inr (policy', coin)"
  shows "collateralized policy'"
  using assms
  by (auto simp: remove_collateral_def Let_def and_then_Inr_iff collateralized_def
      word_le_nat_alt unat_sub dest!: sub_u64_Inr split: if_splits)

lemma process_funding_payment_collateralized:
  assumes "collateralized policy"
    and "process_funding_payment policy rate direction ctx = Inr (policy', payment)"
  shows "collateralized policy'"
  using assms
  by (auto simp: process_funding_payment_def and_then_Inr_iff collateralized_def
      split: if_splits)

lemma commit_policy_op_collateralized:
  assumes "collateralized policy"
  shows "collateralized (commit_policy_op policy operation)"
proof (cases "apply_policy_op policy operation")
  case (Inl e)
  then show ?thesis using assms by (simp add: commit_policy_op_def)
next
  case (Inr policy')
  then have "collateralized policy'"
    using assms
    by (cases operation)
      (auto simp: and_then_Inr_iff
        dest: add_collateral_collateralized remove_collateral_collateralized
          process_funding_payment_collateralized)
  then show ?thesis using Inr by (simp add: commit_policy_op_def)
qed

lemma foldl_commit_collateralized:
  "collateralized policy \<Longrightarrow> collateralized (foldl commit_policy_op policy operations)"
  by (induction operations arbitrary: policy) (simp_all add: commit_policy_op_collateralized)

lemma remove_collateral_rejects:
  assumes "collateralized policy"
    and "unat (collateral_balance policy) < unat (margin_requirement policy) + unat amount"
  shows "remove_collateral policy amount ctx =
           Inl (if pe_owner policy = sender ctx then BelowMarginRequirement else Unauthorized)"
proof -
  have le: "unat (margin_requirement policy) \<le> unat (collateral_balance policy)"
    using assms(1) by (simp add: collateralized_def word_le_nat_alt)
  then have "unat (collateral_balance policy - margin_requirement policy)
      = unat (collateral_balance policy) - unat (margin_requirement policy)"
    by (simp add: unat_sub word_le_nat_alt)
  then have "\<not> amount \<le> collateral_balance policy - margin_requirement policy"
    using assms(2) le by (simp add: word_le_nat_alt)
  then show ?thesis
    using le by (simp add: remove_collateral_def Let_def sub_u64_def)
qed


lemma create_east_africa_drought_policy:
  "\<exists>registry' policy.
     create_policy_enhanced init_registry init_risk_params ''east-africa'' [] ''drought'' []
       10000 25 0 4000 alice_ctx = Inr (registry', policy)
     \<and> collateral_balance policy = 4000 \<and> margin_requirement policy = 3500
     \<and> pe_owner policy = 1"
  by (simp add: create_policy_enhanced_def calculate_margin_requirement_def
      init_registry_def init_risk_params_def Let_def add_u64_def mul_u64_def div_u64_def
      MAX_U64_def alice_ctx_def object_new_def)

text \<open>
  A policy that \<open>create_policy\<close> of \<open>policy_manager_enhanced\<close> has created holds a
  collateral balance of at least its margin requirement, and so does the policy after any
  sequence of transactions that add collateral, remove collateral or process a funding
  payment, as long as no termination comes between; \<open>is_undercollateralized\<close> is false
  throughout. A withdrawal that would take the balance below the margin requirement is
  rejected, and the policy stays as it is.
\<close>

lemma collateral_covers_margin_until_termination:
  assumes "create_policy_enhanced registry risk_params location coordinates peril_type
      peril_details coverage_amount trigger_threshold trigger_operator collateral ctx
        = Inr (registry', policy)"
    and "current = foldl commit_policy_op policy operations"
  shows "margin_requirement policy \<le> collateral_balance policy
       \<and> margin_requirement current \<le> collateral_balance current
       \<and> \<not> is_undercollateralized current
       \<and> (unat (collateral_balance current) < unat (margin_requirement current) + unat amount
            \<longrightarrow> remove_collateral current amount ctx' =
                  Inl (if pe_owner current = sender ctx' then BelowMarginRequirement
                       else Unauthorized)
                \<and> commit_policy_op current (RemoveCollateral amount ctx') = current)"
proof -
  have created: "collateralized policy"
    using assms(1) by (rule create_policy_enhanced_collateralized)
  then have now: "collateralized current"
    unfolding assms(2) by (rule foldl_commit_collateralized)
  have "remove_collateral current amount ctx' =
          Inl (if pe_owner current = sender ctx' then BelowMarginRequirement else Unauthorized)
        \<and> commit_policy_op current (RemoveCollateral amount ctx') = current"
    if "unat (collateral_balance current) < unat (margin_requirement current) + unat amount"
    using remove_collateral_rejects [OF now that, of ctx']
    by (simp add: commit_policy_op_def)
  then show ?thesis
    using created now by (auto simp: collateralized_def is_undercollateralized_def)
qed

text \<open>
  Created with the collateral 4000 against the margin requirement 3500, the policy stays
  covered when its owner adds 500, removes 200, tries to remove 5000 and pays funding at
  the rate 50; from the balance 4000 a withdrawal of 501 is rejected.
\<close>

lemma collateral_covers_margin_until_termination_example:
  "\<exists>registry' policy.
     create_policy_enhanced init_registry init_risk_params ''east-africa'' [] ''drought'' []
       10000 25 0 4000 alice_ctx = Inr (registry', policy)
     \<and> margin_requirement policy \<le> collateral_balance policy
     \<and> margin_requirement
          (foldl commit_policy_op policy
             [AddCollateral 500 alice_ctx, RemoveCollateral 200 alice_ctx,
              RemoveCollateral 5000 alice_ctx, FundingPayment 50 True alice_ctx])
        \<le> collateral_balance
          (foldl commit_policy_op policy
             [AddCollateral 500 alice_ctx, RemoveCollateral 200 alice_ctx,
              RemoveCollateral 5000 alice_ctx, FundingPayment 50 True alice_ctx])
     \<and> unat (collateral_balance policy) < unat (margin_requirement policy) + unat (501 :: u64)
     \<and> remove_collateral policy 501 alice_ctx = Inl BelowMarginRequirement"
proof -
  obtain registry' policy where created:
    "create_policy_enhanced init_registry init_risk_params ''east-africa'' [] ''drought'' []
       10000 25 0 4000 alice_ctx = Inr (registry', policy)"
    and fields: "collateral_balance policy = 4000" "margin_requirement policy = 3500"
      "pe_owner policy = 1"
    using create_east_africa_drought_policy by blast
  have short: "unat (collateral_balance policy) < unat (margin_requirement policy)
      + unat (501 :: u64)"
    by (simp add: fields)
  have after: "margin_requirement policy \<le> collateral_balance policy
     \<and> margin_requirement
          (foldl commit_policy_op policy
             [AddCollateral 500 alice_ctx, RemoveCollateral 200 alice_ctx,
              RemoveCollateral 5000 alice_ctx, FundingPayment 50 True alice_ctx])
        \<le> collateral_balance
          (foldl commit_policy_op policy
             [AddCollateral 500 alice_ctx, RemoveCollateral 200 alice_ctx,
              RemoveCollateral 5000 alice_ctx, FundingPayment 50 True alice_ctx])"
    using collateral_covers_margin_until_termination [OF created refl] by blast
  have "remove_collateral policy 501 alice_ctx = Inl BelowMarginRequirement"
    using collateral_covers_margin_until_termination [OF created, of policy "[]" 501 alice_ctx]
      short fields
    by (simp add: alice_ctx_def)
  then show ?thesis using created after short by blast
qed

text \<open>
  Termination returns the whole collateral to the owner and leaves the margin requirement
  of the policy, now inactive, as it was. The policy object stays with its owner.
\<close>

lemma terminate_policy_enhanced_returns_collateral:
  assumes "terminate_policy_enhanced registry policy ctx = Inr (registry', policy', coin)"
  shows "collateral_balance policy' = 0 \<and> coin = collateral_balance policy
       \<and> margin_requirement policy' = margin_requirement policy \<and> \<not> pe_active policy'"
  using assms
  by (auto simp: terminate_policy_enhanced_def Let_def and_then_Inr_iff)

text \<open>
  \<open>process_funding_payment\<close> and \<open>terminate_policy\<close> refuse a policy that is not
  active; \<open>add_collateral\<close> and \<open>remove_collateral\<close> do not read the flag.
\<close>

lemma process_funding_payment_inactive:
  "\<not> pe_active policy \<Longrightarrow>
     process_funding_payment policy rate direction ctx = Inl PolicyInactive"
  by (simp add: process_funding_payment_def)

lemma terminate_policy_enhanced_inactive:
  "\<not> pe_active policy \<Longrightarrow> pe_owner policy = sender ctx \<Longrightarrow>
     terminate_policy_enhanced registry policy ctx = Inl AlreadyTerminated"
  by (simp add: terminate_policy_enhanced_def)

lemma add_collateral_ignores_active:
  "add_collateral (policy\<lparr>pe_active := flag\<rparr>) coin ctx =
     and_then (add_collateral policy coin ctx) (\<lambda>policy'. Inr (policy'\<lparr>pe_active := flag\<rparr>))"
  by (simp add: add_collateral_def and_then_def assert_that_def split: sum.splits)

text \<open>
  C5. The policy created with the collateral 4000 against the margin requirement 3500,
  terminated by its owner, and then given a collateral of 1 by its owner: the collateral
  add completes on the terminated policy and leaves the locked balance 1 below the margin
  requirement 3500, with \<open>is_undercollateralized\<close> true.
\<close>

theorem add_collateral_on_terminated_policy:
  "create_policy_enhanced init_registry init_risk_params ''east-africa'' [] ''drought'' []
     10000 25 0 4000 alice_ctx = Inr (registry_with_policy, covered_policy)
   \<and> terminate_policy_enhanced registry_with_policy covered_policy alice_ctx
       = Inr (registry_with_policy\<lparr>total_coverage := 0\<rparr>, terminated_covered_policy, 4000)
   \<and> add_collateral terminated_covered_policy 1 alice_ctx = Inr topped_up_policy
   \<and> collateral_balance topped_up_policy = 1
   \<and> margin_requirement topped_up_policy = 3500
   \<and> collateral_balance topped_up_policy < margin_requirement topped_up_policy
   \<and> is_undercollateralized topped_up_policy"
  by (simp add: create_policy_enhanced_def calculate_margin_requirement_def
      terminate_policy_enhanced_def add_collateral_def is_undercollateralized_def
      init_registry_def init_risk_params_def registry_with_policy_def covered_policy_def
      terminated_covered_policy_def topped_up_policy_def index_add_def Let_def add_u64_def
      sub_u64_def mul_u64_def div_u64_def MAX_U64_def alice_ctx_def object_new_def)

end
